theory Spec2Isabelle
  imports Main
begin

section \<open>Python strings\<close>

text \<open>
  The validator of \<^verbatim>\<open>src/tools/memory_pack_validator.py\<close> works on Python \<^verbatim>\<open>str\<close>
  values. A \<^typ>\<open>char\<close> stands for one code point below 256, and the string
  methods the validator calls are written out for that range: \<^verbatim>\<open>str.isspace\<close>
  (used by \<^verbatim>\<open>strip\<close>, \<^verbatim>\<open>split\<close> and the pattern \<^verbatim>\<open>\s\<close>), \<^verbatim>\<open>str.lower\<close>,
  \<^verbatim>\<open>str.splitlines\<close>, \<^verbatim>\<open>str.split('\n')\<close>, \<^verbatim>\<open>startswith\<close>, \<^verbatim>\<open>endswith\<close>
  and the substring test \<^verbatim>\<open>in\<close>. Python integers are \<^typ>\<open>int\<close>.
\<close>

definition newline :: char where
  "newline = CHR 0x0A"

definition isspace :: "char \<Rightarrow> bool" where
  "isspace c = (of_char c \<in> {9, 10, 11, 12, 13, 28, 29, 30, 31, 32, 133, 160 :: nat})"

definition lower_char :: "char \<Rightarrow> char" where
  "lower_char c =
     (let n = (of_char c :: nat)
      in if (65 \<le> n \<and> n \<le> 90) \<or> (192 \<le> n \<and> n \<le> 214) \<or> (216 \<le> n \<and> n \<le> 222)
         then char_of (n + 32) else c)"

definition lower :: "string \<Rightarrow> string" where
  "lower s = map lower_char s"

definition strip :: "string \<Rightarrow> string" where
  "strip s = rev (dropWhile isspace (rev (dropWhile isspace s)))"

definition startswith :: "string \<Rightarrow> string \<Rightarrow> bool" where
  "startswith s p = (take (length p) s = p)"

definition endswith :: "string \<Rightarrow> string \<Rightarrow> bool" where
  "endswith s p = (length p \<le> length s \<and> drop (length s - length p) s = p)"

text \<open>\<^verbatim>\<open>p in s\<close>: \<open>p\<close> occurs in \<open>s\<close> as a contiguous substring.\<close>

fun contains :: "string \<Rightarrow> string \<Rightarrow> bool" where
  "contains [] p = (p = [])"
| "contains (c # cs) p = (startswith (c # cs) p \<or> contains cs p)"

text \<open>
  \<^verbatim>\<open>s.split(sep)\<close> for a one-character separator: always at least one piece, and
  the empty string gives one empty piece.
\<close>

fun split_on :: "char \<Rightarrow> string \<Rightarrow> string list" where
  "split_on sep [] = [[]]"
| "split_on sep (c # cs) =
     (if c = sep then [] # split_on sep cs
      else (c # hd (split_on sep cs)) # tl (split_on sep cs))"

text \<open>\<^verbatim>\<open>s.split()\<close>: the maximal runs of non-whitespace, none of them empty.\<close>

fun split_ws :: "string \<Rightarrow> string \<Rightarrow> string list" where
  "split_ws cur [] = (if cur = [] then [] else [rev cur])"
| "split_ws cur (c # cs) =
     (if isspace c then (if cur = [] then split_ws [] cs else rev cur # split_ws [] cs)
      else split_ws (c # cur) cs)"

definition split :: "string \<Rightarrow> string list" where
  "split s = split_ws [] s"

text \<open>
  \<^verbatim>\<open>s.splitlines()\<close>: a line ends at any of the line boundaries below, a carriage
  return followed by a line feed is one boundary, and a boundary at the very end opens
  no further line.
\<close>

definition is_linebreak :: "char \<Rightarrow> bool" where
  "is_linebreak c = (of_char c \<in> {10, 11, 12, 13, 28, 29, 30, 133 :: nat})"

fun splitlines_from :: "string \<Rightarrow> string \<Rightarrow> string list" where
  "splitlines_from cur [] = (if cur = [] then [] else [rev cur])"
| "splitlines_from cur [c] = (if is_linebreak c then [rev cur] else [rev (c # cur)])"
| "splitlines_from cur (c # d # cs) =
     (if c = CHR 0x0D \<and> d = CHR 0x0A then rev cur # splitlines_from [] cs
      else if is_linebreak c then rev cur # splitlines_from [] (d # cs)
      else splitlines_from (c # cur) (d # cs))"

definition splitlines :: "string \<Rightarrow> string list" where
  "splitlines s = splitlines_from [] s"

text \<open>\<^verbatim>\<open>str(n)\<close> for an integer, as the f-strings of the validator format it.\<close>

fun digits :: "nat \<Rightarrow> string" where
  "digits n = (if n < 10 then [char_of (48 + n)] else digits (n div 10) @ [char_of (48 + n mod 10)])"

declare digits.simps [simp del]

definition str_int :: "int \<Rightarrow> string" where
  "str_int i = (if i < 0 then CHR ''-'' # digits (nat (- i)) else digits (nat i))"

text \<open>
  \<^verbatim>\<open>len(re.findall(r'^#+\s+(.+)$', content, re.MULTILINE))\<close>. A match starts at a line
  start with a run of \<^verbatim>\<open>#\<close>, goes on through a run of whitespace (which may contain
  line feeds) and ends at the end of the line of the first character after that run.
  When the whitespace run reaches the end of the text, the match gives back
  whitespace: it succeeds when the run has a character other than a line feed
  after its first one. The scanner keeps what the matcher has seen so far.
\<close>

datatype scan = LineStart | InLine | Hashes | Spaces bool

fun count_headers :: "scan \<Rightarrow> string \<Rightarrow> nat" where
  "count_headers st [] = (case st of Spaces True \<Rightarrow> 1 | _ \<Rightarrow> 0)"
| "count_headers LineStart (c # cs) =
     (if c = CHR ''#'' then count_headers Hashes cs
      else if c = newline then count_headers LineStart cs
      else count_headers InLine cs)"
| "count_headers InLine (c # cs) =
     (if c = newline then count_headers LineStart cs else count_headers InLine cs)"
| "count_headers Hashes (c # cs) =
     (if c = CHR ''#'' then count_headers Hashes cs
      else if isspace c then count_headers (Spaces False) cs
      else count_headers InLine cs)"
| "count_headers (Spaces b) (c # cs) =
     (if isspace c then count_headers (Spaces (b \<or> c \<noteq> newline)) cs
      else 1 + count_headers InLine cs)"

section \<open>The world outside the validator\<close>

text \<open>
  \<^verbatim>\<open>json.loads\<close> is the standard library's parser, not code of this repository: it
  is a parameter of the model, and every general statement below holds for each
  function put in its place. On a line it returns a value, raises
  \<^verbatim>\<open>json.JSONDecodeError\<close> with a message, or raises something else (a
  \<^verbatim>\<open>RecursionError\<close> on deeply nested input), which the per-line handler of
  \<^verbatim>\<open>_validate_jsonl_structure\<close> does not catch.
\<close>

datatype json_outcome = Parsed | JSONDecodeError string | OtherException string

type_synonym json_loads = "string \<Rightarrow> json_outcome"

text \<open>
  What the file-system calls of the validator return on one path of the pack
  directory: \<^verbatim>\<open>exists()\<close>, \<^verbatim>\<open>is_file()\<close>, \<^verbatim>\<open>stat().st_size\<close> and
  \<^verbatim>\<open>read_text(encoding='utf-8')\<close>, each of which returns (\<open>Inr\<close>) or raises
  (\<open>Inl\<close>, with \<^verbatim>\<open>str(e)\<close>). \<^verbatim>\<open>Path.exists()\<close> returns false for a path that
  is not there and raises every other \<^verbatim>\<open>OSError\<close>, such as the
  \<^verbatim>\<open>PermissionError\<close> of a directory that may not be searched. A pack directory
  maps each file name to that. The validator reads and never writes, so the directory
  is the same at every call of one run. The progress lines printed to the console are
  not part of the model.
\<close>

record path_state =
  path_exists :: "string + bool"
  path_is_file :: "string + bool"
  path_stat_size :: "string + int"
  path_read_text :: "string + string"

type_synonym pack = "string \<Rightarrow> path_state"

section \<open>The report\<close>

text \<open>
  Python dictionaries keep insertion order, and \<^verbatim>\<open>_generate_recommendations\<close>
  iterates over them: a dictionary is an association list, and \<^verbatim>\<open>d[k] = v\<close>
  replaces the value of a key that is present and appends a new key at the end.
\<close>

fun dict_set :: "('k \<times> 'v) list \<Rightarrow> 'k \<Rightarrow> 'v \<Rightarrow> ('k \<times> 'v) list" where
  "dict_set [] k v = [(k, v)]"
| "dict_set ((k', v') # d) k v = (if k' = k then (k, v) # d else (k', v') # dict_set d k v)"

text \<open>
  \<^verbatim>\<open>file_result\<close>: the key \<^verbatim>\<open>'error'\<close> is present only after an exception
  (the field \<open>file_error\<close>).
\<close>

record file_result =
  exists :: bool
  readable :: bool
  size_bytes :: int
  description :: string
  file_error :: "string option"

text \<open>
  \<^verbatim>\<open>validation\<close>: the dictionary built by the two structure validators has the
  keys \<^verbatim>\<open>'valid'\<close>, \<^verbatim>\<open>'warnings'\<close> and \<^verbatim>\<open>'metrics'\<close>, and \<^verbatim>\<open>'error'\<close> when
  invalid; the one built by the exception handler has \<^verbatim>\<open>'valid'\<close> and
  \<^verbatim>\<open>'error'\<close> only. An absent key is \<open>None\<close>.
\<close>

record validation =
  valid :: bool
  warnings :: "string list option"
  metrics :: "(string \<times> int) list option"
  error :: "string option"

record results =
  timestamp :: string
  memory_pack_path :: string
  overall_status :: string
  file_structure :: "(string \<times> file_result) list"
  content_validation :: "(string \<times> validation) list"
  cross_references :: "(string \<times> string) list"
  recommendations :: "string list"

definition required_files :: "(string \<times> string) list" where
  "required_files =
     [(''persona.md'', ''Core identity and self-understanding''),
      (''relationship_dynamics.md'', ''Human bonds and collaborative rapport''),
      (''technical_domains.md'', ''Expertise, preferences, and knowledge base''),
      (''stylistic_voice.md'', ''Communication patterns and signature style''),
      (''runtime_observations.jsonl'', ''Living memory stream and insights'')]"

section \<open>\<^verbatim>\<open>_validate_file_structure\<close>\<close>

text \<open>
  The body of the loop for one file. \<^verbatim>\<open>file_path.exists()\<close> is called while the
  dictionary \<^verbatim>\<open>file_result\<close> is built, before the \<^verbatim>\<open>try\<close>: an exception of it
  leaves the loop and the function. \<open>file_entry\<close> is the rest of the body, once
  \<^verbatim>\<open>exists()\<close> has returned \<open>ex\<close>: the result recorded for the file, and whether
  it leaves \<^verbatim>\<open>all_files_valid\<close> alone. \<^verbatim>\<open>is_file()\<close> and \<^verbatim>\<open>stat()\<close> run inside
  the \<^verbatim>\<open>try\<close>; an exception of the second leaves \<^verbatim>\<open>'readable'\<close> as the first
  set it.
\<close>

definition file_entry :: "bool \<Rightarrow> path_state \<Rightarrow> string \<Rightarrow> file_result \<times> bool" where
  "file_entry ex st descr =
     (let file_result = \<lparr>exists = ex, readable = False, size_bytes = 0,
                          description = descr, file_error = None\<rparr>
      in if exists file_result then
           (case path_is_file st of
              Inl e \<Rightarrow> (file_result\<lparr>file_error := Some e\<rparr>, False)
            | Inr f \<Rightarrow>
                (case path_stat_size st of
                   Inl e \<Rightarrow> (file_result\<lparr>readable := f, file_error := Some e\<rparr>, False)
                 | Inr n \<Rightarrow> (file_result\<lparr>readable := f, size_bytes := n\<rparr>, True)))
         else (file_result, False))"

definition check_file :: "path_state \<Rightarrow> string \<Rightarrow> string + (file_result \<times> bool)" where
  "check_file st descr =
     (case path_exists st of
        Inl e \<Rightarrow> Inl e
      | Inr ex \<Rightarrow> Inr (file_entry ex st descr))"

fun file_structure_loop ::
  "pack \<Rightarrow> (string \<times> string) list \<Rightarrow> (string \<times> file_result) list \<Rightarrow> bool
     \<Rightarrow> string + ((string \<times> file_result) list \<times> bool)" where
  "file_structure_loop fs [] structure_results all_files_valid =
     Inr (structure_results, all_files_valid)"
| "file_structure_loop fs ((filename, descr) # rest) structure_results all_files_valid =
     (case check_file (fs filename) descr of
        Inl e \<Rightarrow> Inl e
      | Inr (file_result, ok) \<Rightarrow>
          file_structure_loop fs rest (dict_set structure_results filename file_result)
            (all_files_valid \<and> ok))"

definition validate_file_structure :: "pack \<Rightarrow> results \<Rightarrow> string + (bool \<times> results)" where
  "validate_file_structure fs res =
     (case file_structure_loop fs required_files [] True of
        Inl e \<Rightarrow> Inl e
      | Inr (structure_results, all_files_valid) \<Rightarrow>
          Inr (all_files_valid, res\<lparr>file_structure := structure_results\<rparr>))"

section \<open>The two structure validators\<close>

definition required_sections :: "string list" where
  "required_sections = [''Identity'', ''Tone'', ''Behavior'', ''Self-Understanding'']"

fun persona_sections :: "string \<Rightarrow> string list \<Rightarrow> string list \<Rightarrow> string list" where
  "persona_sections content [] ws = ws"
| "persona_sections content (sec # rest) ws =
     persona_sections content rest
       (if \<not> contains (lower content) (lower sec)
        then ws @ [''Missing recommended section: '' @ sec] else ws)"

definition validate_markdown_structure :: "string \<Rightarrow> string \<Rightarrow> validation" where
  "validate_markdown_structure filename content =
     (let ws0 = (if \<not> startswith (strip content) ''#'' then [''Missing main header''] else []);
          header_count = int (count_headers LineStart content);
          word_count = int (length (split content));
          line_count = int (length (splitlines content));
          ms = [(''header_count'', header_count), (''word_count'', word_count),
                (''line_count'', line_count)];
          ws = (if filename = ''persona.md'' then persona_sections content required_sections ws0
                else if filename = ''relationship_dynamics.md'' then
                  (if \<not> contains (lower content) ''john''
                   then ws0 @ [''No reference to primary collaborator John''] else ws0)
                else if filename = ''technical_domains.md'' then
                  (if word_count < 50
                   then ws0 @ [''Technical domains seem underdeveloped''] else ws0)
                else ws0)
      in \<lparr>valid = True, warnings = Some ws, metrics = Some ms, error = None\<rparr>)"

text \<open>
  The loop of \<^verbatim>\<open>_validate_jsonl_structure\<close> over \<^verbatim>\<open>enumerate(lines)\<close>, with
  \<^verbatim>\<open>valid_json_count\<close> and the warnings as its state. A blank line is skipped; an
  exception other than \<^verbatim>\<open>JSONDecodeError\<close> leaves the function.
\<close>

definition enumerate :: "'a list \<Rightarrow> (nat \<times> 'a) list" where
  "enumerate xs = zip [0 ..< length xs] xs"

fun jsonl_loop ::
  "json_loads \<Rightarrow> (nat \<times> string) list \<Rightarrow> int \<Rightarrow> string list \<Rightarrow> string + (int \<times> string list)" where
  "jsonl_loop loads [] valid_json_count ws = Inr (valid_json_count, ws)"
| "jsonl_loop loads ((i, line) # rest) valid_json_count ws =
     (if strip line = [] then jsonl_loop loads rest valid_json_count ws
      else (case loads line of
              Parsed \<Rightarrow> jsonl_loop loads rest (valid_json_count + 1) ws
            | JSONDecodeError e \<Rightarrow>
                jsonl_loop loads rest valid_json_count
                  (ws @ [''Invalid JSON on line '' @ str_int (int i + 1) @ '': '' @ e])
            | OtherException e \<Rightarrow> Inl e))"

definition validate_jsonl_structure :: "json_loads \<Rightarrow> string \<Rightarrow> string \<Rightarrow> string + validation" where
  "validate_jsonl_structure loads filename content =
     (let lines = split_on newline (strip content)
      in case jsonl_loop loads (enumerate lines) 0 [] of
           Inl e \<Rightarrow> Inl e
         | Inr (valid_json_count, ws) \<Rightarrow>
             (let total_lines = int (length lines);
                  invalid_lines = total_lines - valid_json_count;
                  ms = [(''total_lines'', total_lines), (''valid_json_lines'', valid_json_count),
                        (''invalid_lines'', invalid_lines)]
              in if invalid_lines > 0
                 then Inr \<lparr>valid = False, warnings = Some ws, metrics = Some ms,
                           error = Some (str_int invalid_lines @ '' invalid JSON lines'')\<rparr>
                 else Inr \<lparr>valid = True, warnings = Some ws, metrics = Some ms, error = None\<rparr>))"

section \<open>\<^verbatim>\<open>_validate_content_structure\<close>\<close>

text \<open>
  The \<^verbatim>\<open>try\<close> block for one existing file. \<^verbatim>\<open>except Exception\<close> turns a failed
  read and an exception of a validator into \<^verbatim>\<open>{'valid': False, 'error': str(e)}\<close>.
\<close>

definition error_validation :: "string \<Rightarrow> validation" where
  "error_validation e = \<lparr>valid = False, warnings = None, metrics = None, error = Some e\<rparr>"

definition validate_content :: "json_loads \<Rightarrow> string \<Rightarrow> path_state \<Rightarrow> validation" where
  "validate_content loads filename st =
     (case path_read_text st of
        Inl e \<Rightarrow> error_validation e
      | Inr content \<Rightarrow>
          if endswith filename ''.md'' then validate_markdown_structure filename content
          else if endswith filename ''.jsonl'' then
            (case validate_jsonl_structure loads filename content of
               Inl e \<Rightarrow> error_validation e
             | Inr v \<Rightarrow> v)
          else \<lparr>valid = False, warnings = None, metrics = None,
                 error = Some ''Unknown file type''\<rparr>)"

text \<open>
  The loop calls \<^verbatim>\<open>file_path.exists()\<close> again, before its \<^verbatim>\<open>try\<close>: here too an
  exception of it leaves the loop and the function.
\<close>

fun content_structure_loop ::
  "json_loads \<Rightarrow> pack \<Rightarrow> string list \<Rightarrow> (string \<times> validation) list \<Rightarrow> bool
     \<Rightarrow> string + ((string \<times> validation) list \<times> bool)" where
  "content_structure_loop loads fs [] content_results all_content_valid =
     Inr (content_results, all_content_valid)"
| "content_structure_loop loads fs (filename # rest) content_results all_content_valid =
     (case path_exists (fs filename) of
        Inl e \<Rightarrow> Inl e
      | Inr ex \<Rightarrow>
          if \<not> ex
          then content_structure_loop loads fs rest content_results all_content_valid
          else (let v = validate_content loads filename (fs filename)
                in content_structure_loop loads fs rest (dict_set content_results filename v)
                     (all_content_valid \<and> valid v)))"

definition validate_content_structure ::
  "json_loads \<Rightarrow> pack \<Rightarrow> results \<Rightarrow> string + (bool \<times> results)" where
  "validate_content_structure loads fs res =
     (case content_structure_loop loads fs (map fst required_files) [] True of
        Inl e \<Rightarrow> Inl e
      | Inr (content_results, all_content_valid) \<Rightarrow>
          Inr (all_content_valid, res\<lparr>content_validation := content_results\<rparr>))"

section \<open>Cross references, recommendations and the overall status\<close>

definition validate_cross_references :: "results \<Rightarrow> bool \<times> results" where
  "validate_cross_references res =
     (True, res\<lparr>cross_references :=
        [(''status'', ''basic_check_passed''),
         (''notes'', ''Advanced cross-reference validation not yet implemented'')]\<rparr>)"

fun size_loop :: "(string \<times> file_result) list \<Rightarrow> string list \<Rightarrow> string list" where
  "size_loop [] recs = recs"
| "size_loop ((filename, file_info) # rest) recs =
     size_loop rest
       (if size_bytes file_info < 100
        then recs @ [''Consider expanding '' @ filename @ '' - currently very brief'']
        else recs)"

fun warning_loop :: "string \<Rightarrow> string list \<Rightarrow> string list \<Rightarrow> string list" where
  "warning_loop filename [] recs = recs"
| "warning_loop filename (w # ws) recs = warning_loop filename ws (recs @ [filename @ '': '' @ w])"

text \<open>\<^verbatim>\<open>content_info.get('warnings')\<close> is false for an absent key and for an empty list.\<close>

fun content_loop :: "(string \<times> validation) list \<Rightarrow> string list \<Rightarrow> string list" where
  "content_loop [] recs = recs"
| "content_loop ((filename, content_info) # rest) recs =
     content_loop rest
       (case warnings content_info of
          None \<Rightarrow> recs
        | Some ws \<Rightarrow> if ws = [] then recs else warning_loop filename ws recs)"

definition generate_recommendations :: "results \<Rightarrow> results" where
  "generate_recommendations res =
     res\<lparr>recommendations := content_loop (content_validation res) (size_loop (file_structure res) [])\<rparr>"

text \<open>
  \<open>path\<close> is \<^verbatim>\<open>str(self.memory_pack_path)\<close>. The run returns its report (\<open>Inr\<close>),
  or an exception leaves it (\<open>Inl\<close>): none of the calls below is inside a
  \<^verbatim>\<open>try\<close>.
\<close>

definition validate_all :: "json_loads \<Rightarrow> string \<Rightarrow> pack \<Rightarrow> string \<Rightarrow> string + results" where
  "validate_all loads path fs now =
     (let res0 = \<lparr>timestamp = now, memory_pack_path = path, overall_status = ''UNKNOWN'',
                  file_structure = [], content_validation = [], cross_references = [],
                  recommendations = []\<rparr>
      in case validate_file_structure fs res0 of
           Inl e \<Rightarrow> Inl e
         | Inr (structure_valid, res1) \<Rightarrow>
             (case validate_content_structure loads fs res1 of
                Inl e \<Rightarrow> Inl e
              | Inr (content_valid, res2) \<Rightarrow>
                  (let (cross_ref_valid, res3) = validate_cross_references res2;
                       res4 = generate_recommendations res3
                   in if structure_valid \<and> content_valid \<and> cross_ref_valid
                      then Inr (res4\<lparr>overall_status := ''VALID''\<rparr>)
                      else if structure_valid \<and> content_valid
                      then Inr (res4\<lparr>overall_status := ''VALID_WITH_WARNINGS''\<rparr>)
                      else Inr (res4\<lparr>overall_status := ''INVALID''\<rparr>))))"

section \<open>\<^verbatim>\<open>main\<close>\<close>

text \<open>
  \<^verbatim>\<open>str(Path(s))\<close> on a POSIX system: empty components and \<^verbatim>\<open>.\<close> components are
  dropped, exactly two leading slashes are kept, any other number of them is one, and
  the empty path is \<^verbatim>\<open>.\<close>.
\<close>

fun join_path :: "string list \<Rightarrow> string" where
  "join_path [] = []"
| "join_path [c] = c"
| "join_path (c # d # cs) = c @ CHR ''/'' # join_path (d # cs)"

definition str_path :: "string \<Rightarrow> string" where
  "str_path s =
     (let comps = filter (\<lambda>c. c \<noteq> [] \<and> c \<noteq> ''.'') (split_on (CHR ''/'') s);
          root = (if startswith s ''//'' \<and> \<not> startswith s ''///'' then ''//''
                  else if startswith s ''/'' then ''/'' else []);
          r = root @ join_path comps
      in if r = [] then ''.'' else r)"

text \<open>
  The command line: a wrong number of arguments and a pack directory that does not
  exist end the process with status 1 before any file is touched. Otherwise the
  validator runs on \<^verbatim>\<open>Path(sys.argv[1])\<close>; an exception that leaves it leaves
  \<^verbatim>\<open>main\<close> too. Then \<^verbatim>\<open>open(results_file, 'w')\<close> raises (\<open>write_error\<close> is the
  exception, if any, and the file is left as it was) or \<^verbatim>\<open>json.dump\<close> writes the
  report to \<^verbatim>\<open>validation_results.json\<close> in the pack directory, replacing what was
  there. The serialiser is a parameter, as \<^verbatim>\<open>json.loads\<close> is.
\<close>

datatype exit = SysExit int | Returned | Raised string

text \<open>
  A regular file that can be read: its text, and its size when the text is ASCII.
\<close>

definition regular_file :: "string \<Rightarrow> path_state" where
  "regular_file txt =
     \<lparr>path_exists = Inr True, path_is_file = Inr True, path_stat_size = Inr (int (length txt)),
      path_read_text = Inr txt\<rparr>"

definition main ::
  "json_loads \<Rightarrow> (results \<Rightarrow> string) \<Rightarrow> string option \<Rightarrow> string list \<Rightarrow> bool \<Rightarrow> pack \<Rightarrow> string
     \<Rightarrow> exit \<times> pack" where
  "main loads dump write_error argv dir_exists fs now =
     (if length argv \<noteq> 2 then (SysExit 1, fs)
      else if \<not> dir_exists then (SysExit 1, fs)
      else (case validate_all loads (str_path (argv ! 1)) fs now of
              Inl e \<Rightarrow> (Raised e, fs)
            | Inr res \<Rightarrow>
                (case write_error of
                   Some e \<Rightarrow> (Raised e, fs)
                 | None \<Rightarrow>
                     (Returned, fs(''validation_results.json'' := regular_file (dump res))))))"

section \<open>Vocabulary of the statements\<close>

text \<open>
  The lines \<^verbatim>\<open>_validate_jsonl_structure\<close> iterates over are those of the stripped
  content. Such a line is blank when \<^verbatim>\<open>line.strip()\<close> is empty, and malformed when
  it is not blank and \<^verbatim>\<open>json.loads\<close> raises \<^verbatim>\<open>JSONDecodeError\<close> on it; it is
  parsed when \<^verbatim>\<open>json.loads\<close> returns, and it escapes when \<^verbatim>\<open>json.loads\<close> raises
  anything else.
\<close>

definition log_lines :: "string \<Rightarrow> string list" where
  "log_lines content = split_on newline (strip content)"

definition blank :: "string \<Rightarrow> bool" where
  "blank line = (strip line = [])"

definition malformed :: "json_loads \<Rightarrow> string \<Rightarrow> bool" where
  "malformed loads line =
     (\<not> blank line \<and> (case loads line of JSONDecodeError e \<Rightarrow> True | _ \<Rightarrow> False))"

definition parsed :: "json_loads \<Rightarrow> string \<Rightarrow> bool" where
  "parsed loads line = (\<not> blank line \<and> loads line = Parsed)"

definition escapes :: "json_loads \<Rightarrow> string \<Rightarrow> bool" where
  "escapes loads line =
     (\<not> blank line \<and> (case loads line of OtherException e \<Rightarrow> True | _ \<Rightarrow> False))"

text \<open>
  Whether \<^verbatim>\<open>exists()\<close> returns on a file of the pack, whether it returns true, and
  what the file-structure loop records for the file when it returns.
\<close>

definition exists_returns :: "pack \<Rightarrow> string \<Rightarrow> bool" where
  "exists_returns fs filename =
     (case path_exists (fs filename) of Inl e \<Rightarrow> False | Inr ex \<Rightarrow> True)"

definition exists_value :: "pack \<Rightarrow> string \<Rightarrow> bool" where
  "exists_value fs filename = (path_exists (fs filename) = Inr True)"

definition entry_of :: "pack \<Rightarrow> string \<Rightarrow> string \<Rightarrow> file_result \<times> bool" where
  "entry_of fs filename descr = file_entry (exists_value fs filename) (fs filename) descr"

definition expand_note :: "string \<Rightarrow> string" where
  "expand_note filename = ''Consider expanding '' @ filename @ '' - currently very brief''"

text \<open>The report of a run on whose five paths \<^verbatim>\<open>exists()\<close> returns.\<close>

definition report_of :: "json_loads \<Rightarrow> string \<Rightarrow> pack \<Rightarrow> string \<Rightarrow> results" where
  "report_of loads path fs now =
     \<lparr>timestamp = now, memory_pack_path = path,
      overall_status =
        (if list_all (\<lambda>(n, d). snd (entry_of fs n d)) required_files \<and>
            list_all (\<lambda>n. valid (validate_content loads n (fs n)))
              (filter (exists_value fs) (map fst required_files))
         then ''VALID'' else ''INVALID''),
      file_structure = map (\<lambda>(n, d). (n, fst (entry_of fs n d))) required_files,
      content_validation = map (\<lambda>n. (n, validate_content loads n (fs n)))
        (filter (exists_value fs) (map fst required_files)),
      cross_references =
        [(''status'', ''basic_check_passed''),
         (''notes'', ''Advanced cross-reference validation not yet implemented'')],
      recommendations =
        content_loop (map (\<lambda>n. (n, validate_content loads n (fs n)))
            (filter (exists_value fs) (map fst required_files)))
          (size_loop (map (\<lambda>(n, d). (n, fst (entry_of fs n d))) required_files) [])\<rparr>"

section \<open>Example packs\<close>

text \<open>
  \<^verbatim>\<open>json.loads\<close> at the lines the examples below contain, with the messages
  CPython gives; no example has any other non-blank line.
\<close>

definition sample_loads :: json_loads where
  \<open>sample_loads line =
     (if line \<in> {''{}'', ''{"a": 1}'', ''{"b": 2}''} then Parsed
      else if line = ''{"bad":}'' then JSONDecodeError ''Expecting value: line 1 column 8 (char 7)''
      else JSONDecodeError ''Expecting value: line 1 column 1 (char 0)'')\<close>

definition missing_path :: path_state where
  "missing_path =
     \<lparr>path_exists = Inr False, path_is_file = Inr False,
      path_stat_size = Inl ''[Errno 2] No such file or directory'',
      path_read_text = Inl ''[Errno 2] No such file or directory''\<rparr>"

definition pack_of :: "(string \<times> path_state) list \<Rightarrow> pack" where
  "pack_of files filename = (case map_of files filename of None \<Rightarrow> missing_path | Some st \<Rightarrow> st)"

definition empty_pack :: pack where
  "empty_pack = pack_of []"

text \<open>
  A pack whose documents have their header, topics and collaborator, with a
  technical-domains document of ten words; the event log is the last parameter.
\<close>

definition brief_pack :: "string \<Rightarrow> pack" where
  "brief_pack log =
     pack_of
       [(''persona.md'',
           regular_file ''# Persona\<newline>Identity, Tone, Behavior, Self-Understanding''),
        (''relationship_dynamics.md'', regular_file ''# Bonds\<newline>John and the team''),
        (''technical_domains.md'',
           regular_file ''# Domains\<newline>one two three four five six seven eight''),
        (''stylistic_voice.md'', regular_file ''# Voice\<newline>plain and direct''),
        (''runtime_observations.jsonl'', regular_file log)]"

text \<open>A pack with one artifact removed, and a file that exists but cannot be read.\<close>

definition without :: "pack \<Rightarrow> string \<Rightarrow> pack" where
  "without fs filename = fs(filename := missing_path)"

definition unreadable_file :: "string \<Rightarrow> path_state" where
  "unreadable_file e =
     \<lparr>path_exists = Inr True, path_is_file = Inr True, path_stat_size = Inr 54,
      path_read_text = Inl e\<rparr>"

text \<open>\<^verbatim>\<open>str(e)\<close> for the \<^verbatim>\<open>PermissionError\<close> of a path.\<close>

definition errno13 :: "string \<Rightarrow> string" where
  "errno13 p = ''[Errno 13] Permission denied: '' @ CHR 0x27 # p @ [CHR 0x27]"

definition locked_persona_pack :: pack where
  \<open>locked_persona_pack =
     (brief_pack ''{}\<newline>{"bad":}'')
       (''persona.md'' := unreadable_file (errno13 ''packs/alice/persona.md''))\<close>

text \<open>
  A pack directory that exists and may not be searched: every call on a path inside
  it raises.
\<close>

definition unsearchable_pack :: pack where
  "unsearchable_pack filename =
     \<lparr>path_exists = Inl (errno13 (''packs/alice/'' @ filename)),
      path_is_file = Inl (errno13 (''packs/alice/'' @ filename)),
      path_stat_size = Inl (errno13 (''packs/alice/'' @ filename)),
      path_read_text = Inl (errno13 (''packs/alice/'' @ filename))\<rparr>"

text \<open>The report of the brief pack with an event log of three lines \<^verbatim>\<open>{}\<close>.\<close>

definition brief_report_value :: results where
  "brief_report_value =
   \<lparr>timestamp = ''2025-01-01T00:00:00'', memory_pack_path = ''packs/alice'',
    overall_status = ''VALID'',
    file_structure =
      [(''persona.md'',
          \<lparr>exists = True, readable = True, size_bytes = 54,
           description = ''Core identity and self-understanding'', file_error = None\<rparr>),
       (''relationship_dynamics.md'',
          \<lparr>exists = True, readable = True, size_bytes = 25,
           description = ''Human bonds and collaborative rapport'', file_error = None\<rparr>),
       (''technical_domains.md'',
          \<lparr>exists = True, readable = True, size_bytes = 49,
           description = ''Expertise, preferences, and knowledge base'', file_error = None\<rparr>),
       (''stylistic_voice.md'',
          \<lparr>exists = True, readable = True, size_bytes = 24,
           description = ''Communication patterns and signature style'', file_error = None\<rparr>),
       (''runtime_observations.jsonl'',
          \<lparr>exists = True, readable = True, size_bytes = 8,
           description = ''Living memory stream and insights'', file_error = None\<rparr>)],
    content_validation =
      [(''persona.md'',
          \<lparr>valid = True, warnings = Some [],
           metrics = Some [(''header_count'', 1), (''word_count'', 6), (''line_count'', 2)],
           error = None\<rparr>),
       (''relationship_dynamics.md'',
          \<lparr>valid = True, warnings = Some [],
           metrics = Some [(''header_count'', 1), (''word_count'', 6), (''line_count'', 2)],
           error = None\<rparr>),
       (''technical_domains.md'',
          \<lparr>valid = True, warnings = Some [''Technical domains seem underdeveloped''],
           metrics = Some [(''header_count'', 1), (''word_count'', 10), (''line_count'', 2)],
           error = None\<rparr>),
       (''stylistic_voice.md'',
          \<lparr>valid = True, warnings = Some [],
           metrics = Some [(''header_count'', 1), (''word_count'', 5), (''line_count'', 2)],
           error = None\<rparr>),
       (''runtime_observations.jsonl'',
          \<lparr>valid = True, warnings = Some [],
           metrics = Some [(''total_lines'', 3), (''valid_json_lines'', 3), (''invalid_lines'', 0)],
           error = None\<rparr>)],
    cross_references =
      [(''status'', ''basic_check_passed''),
       (''notes'', ''Advanced cross-reference validation not yet implemented'')],
    recommendations =
      [''Consider expanding persona.md - currently very brief'',
       ''Consider expanding relationship_dynamics.md - currently very brief'',
       ''Consider expanding technical_domains.md - currently very brief'',
       ''Consider expanding stylistic_voice.md - currently very brief'',
       ''Consider expanding runtime_observations.jsonl - currently very brief'',
       ''technical_domains.md: Technical domains seem underdeveloped'']\<rparr>"

section \<open>Each loop in closed form\<close>

text \<open>
  The file names of \<^verbatim>\<open>required_files\<close> are distinct, so every assignment to a
  result dictionary appends. When \<^verbatim>\<open>exists()\<close> returns on every required path, each
  loop is a map over the required files and the run returns \<open>report_of\<close>; and a run
  returns only then.
\<close>


lemma dict_set_fresh: "k \<notin> fst ` set d \<Longrightarrow> dict_set d k v = d @ [(k, v)]"
  by (induction d) auto

lemma file_entry_ok:
  "snd (file_entry ex st d) =
     (exists (fst (file_entry ex st d)) \<and> file_error (fst (file_entry ex st d)) = None)"
  by (simp add: file_entry_def Let_def split: sum.splits)

lemma check_file_returns:
  "exists_returns fs n \<Longrightarrow> check_file (fs n) d = Inr (entry_of fs n d)"
  by (auto simp: exists_returns_def check_file_def entry_of_def exists_value_def
      split: sum.splits)

lemma file_structure_loop_eq:
  "distinct (map fst acc @ map fst files) \<Longrightarrow>
   list_all (exists_returns fs) (map fst files) \<Longrightarrow>
   file_structure_loop fs files acc ok =
     Inr (acc @ map (\<lambda>(n, d). (n, fst (entry_of fs n d))) files,
          ok \<and> list_all (\<lambda>(n, d). snd (entry_of fs n d)) files)"
proof (induction files arbitrary: acc ok)
  case Nil
  then show ?case by simp
next
  case (Cons p files)
  obtain n d where p: "p = (n, d)" by (cases p)
  from Cons.prems have fresh: "n \<notin> fst ` set acc"
    and dist: "distinct (map fst (acc @ [(n, fst (entry_of fs n d))]) @ map fst files)"
    and here: "exists_returns fs n"
    and rest: "list_all (exists_returns fs) (map fst files)"
    by (auto simp: p)
  show ?case
    using Cons.IH [OF dist rest]
    by (simp add: p check_file_returns [OF here] dict_set_fresh [OF fresh] split_beta)
qed

lemma file_structure_loop_Inr:
  "file_structure_loop fs files acc ok = Inr r \<Longrightarrow> list_all (exists_returns fs) (map fst files)"
proof (induction files arbitrary: acc ok)
  case Nil
  then show ?case by simp
next
  case (Cons p files)
  obtain n d where p: "p = (n, d)" by (cases p)
  show ?case
  proof (cases "path_exists (fs n)")
    case (Inl e)
    with Cons.prems show ?thesis by (simp add: p check_file_def)
  next
    case (Inr ex)
    with Cons.prems Cons.IH show ?thesis
      by (auto simp: p check_file_def exists_returns_def split: prod.splits)
  qed
qed

lemma content_structure_loop_eq:
  "distinct (map fst acc @ names) \<Longrightarrow>
   list_all (exists_returns fs) names \<Longrightarrow>
   content_structure_loop loads fs names acc ok =
     Inr (acc @ map (\<lambda>n. (n, validate_content loads n (fs n))) (filter (exists_value fs) names),
          ok \<and> list_all (\<lambda>n. valid (validate_content loads n (fs n)))
                 (filter (exists_value fs) names))"
proof (induction names arbitrary: acc ok)
  case Nil
  then show ?case by simp
next
  case (Cons n names)
  from Cons.prems have fresh: "n \<notin> fst ` set acc"
    and rest: "list_all (exists_returns fs) names" by auto
  from Cons.prems obtain ex where ex: "path_exists (fs n) = Inr ex"
    by (auto simp: exists_returns_def split: sum.splits)
  show ?case
  proof (cases ex)
    case False
    with Cons.prems ex Cons.IH [OF _ rest, of acc ok] show ?thesis
      by (simp add: exists_value_def)
  next
    case True
    from Cons.prems
    have dist: "distinct (map fst (acc @ [(n, validate_content loads n (fs n))]) @ names)"
      by auto
    show ?thesis
      using Cons.IH [OF dist rest] True ex
      by (simp add: dict_set_fresh [OF fresh] Let_def exists_value_def)
  qed
qed

lemma distinct_required_files: "distinct (map fst required_files)"
  by (simp add: required_files_def)

lemma validate_file_structure_eq:
  assumes "list_all (exists_returns fs) (map fst required_files)"
  shows "validate_file_structure fs res =
     Inr (list_all (\<lambda>(n, d). snd (entry_of fs n d)) required_files,
          res\<lparr>file_structure := map (\<lambda>(n, d). (n, fst (entry_of fs n d))) required_files\<rparr>)"
  using file_structure_loop_eq [of "[]" required_files fs True] distinct_required_files assms
  by (simp add: validate_file_structure_def)

lemma validate_content_structure_eq:
  assumes "list_all (exists_returns fs) (map fst required_files)"
  shows "validate_content_structure loads fs res =
     Inr (list_all (\<lambda>n. valid (validate_content loads n (fs n)))
            (filter (exists_value fs) (map fst required_files)),
          res\<lparr>content_validation := map (\<lambda>n. (n, validate_content loads n (fs n)))
            (filter (exists_value fs) (map fst required_files))\<rparr>)"
  using content_structure_loop_eq [of "[]" "map fst required_files" fs loads True]
    distinct_required_files assms
  by (simp add: validate_content_structure_def)

lemma validate_all_eq:
  assumes "list_all (exists_returns fs) (map fst required_files)"
  shows "validate_all loads path fs now = Inr (report_of loads path fs now)"
  by (simp add: validate_all_def validate_file_structure_eq [OF assms]
      validate_content_structure_eq [OF assms] validate_cross_references_def
      generate_recommendations_def Let_def report_of_def)

lemma validate_all_Inr:
  assumes "validate_all loads path fs now = Inr r"
  shows "list_all (exists_returns fs) (map fst required_files)"
proof -
  from assms obtain p where "file_structure_loop fs required_files [] True = Inr p"
    by (auto simp: validate_all_def validate_file_structure_def Let_def split: sum.splits)
  from file_structure_loop_Inr [OF this] show ?thesis .
qed

lemma validate_all_report:
  assumes "validate_all loads path fs now = Inr r"
  shows "r = report_of loads path fs now"
  using validate_all_eq [OF validate_all_Inr [OF assms], of loads path now] assms by simp

lemma size_loop_eq:
  "size_loop xs recs =
     recs @ map (\<lambda>(n, fi). expand_note n) (filter (\<lambda>(n, fi). size_bytes fi < 100) xs)"
  by (induction xs arbitrary: recs) (auto simp: expand_note_def)

lemma warning_loop_eq:
  "warning_loop filename ws recs = recs @ map (\<lambda>w. filename @ '': '' @ w) ws"
  by (induction ws arbitrary: recs) auto

lemma content_loop_eq:
  "content_loop xs recs =
     recs @ concat (map (\<lambda>(n, ci). map (\<lambda>w. n @ '': '' @ w)
                            (case warnings ci of None \<Rightarrow> [] | Some ws \<Rightarrow> ws)) xs)"
  by (induction xs arbitrary: recs) (auto simp: warning_loop_eq split: option.splits)

lemma persona_sections_append:
  "persona_sections content secs ws = ws @ persona_sections content secs []"
proof (induction secs arbitrary: ws)
  case Nil
  then show ?case by simp
next
  case (Cons sec secs)
  show ?case
    using Cons.IH [of "ws @ [''Missing recommended section: '' @ sec]"]
      Cons.IH [of "[''Missing recommended section: '' @ sec]"] Cons.IH [of ws]
    by simp
qed

text \<open>
  A run depends on the pack directory through the five required paths only, and on
  the clock through the time stamp only.
\<close>

lemma file_structure_loop_cong:
  "\<forall>n \<in> set (map fst files). fs' n = fs n \<Longrightarrow>
   file_structure_loop fs' files acc ok = file_structure_loop fs files acc ok"
proof (induction files arbitrary: acc ok)
  case Nil
  then show ?case by simp
next
  case (Cons p files)
  obtain n d where p: "p = (n, d)" by (cases p)
  from Cons.prems have here: "fs' n = fs n"
    and rest: "\<forall>n \<in> set (map fst files). fs' n = fs n" by (auto simp: p)
  show ?case
    by (simp add: p here Cons.IH [OF rest] split: sum.splits)
qed

lemma content_structure_loop_cong:
  "\<forall>n \<in> set names. fs' n = fs n \<Longrightarrow>
   content_structure_loop loads fs' names acc ok = content_structure_loop loads fs names acc ok"
proof (induction names arbitrary: acc ok)
  case Nil
  then show ?case by simp
next
  case (Cons n names)
  from Cons.prems have here: "fs' n = fs n"
    and rest: "\<forall>n \<in> set names. fs' n = fs n" by auto
  show ?case
    by (simp add: here Cons.IH [OF rest] split: sum.splits)
qed

lemma validate_all_cong:
  assumes "\<forall>n \<in> set (map fst required_files). fs' n = fs n"
  shows "validate_all loads path fs' now = validate_all loads path fs now"
proof -
  have a: "validate_file_structure fs' = validate_file_structure fs"
    by (simp add: fun_eq_iff validate_file_structure_def file_structure_loop_cong [OF assms])
  have b: "validate_content_structure loads fs' = validate_content_structure loads fs"
    by (simp add: fun_eq_iff validate_content_structure_def
        content_structure_loop_cong [OF assms])
  show ?thesis
    unfolding validate_all_def a b ..
qed

lemma validate_all_timestamp:
  "validate_all loads path fs t2 =
     (case validate_all loads path fs t1 of
        Inl e \<Rightarrow> Inl e
      | Inr r \<Rightarrow> Inr (r\<lparr>timestamp := t2\<rparr>))"
proof (cases "list_all (exists_returns fs) (map fst required_files)")
  case True
  then show ?thesis by (simp add: validate_all_eq report_of_def)
next
  case False
  have "file_structure_loop fs required_files [] True = Inl e \<Longrightarrow>
        validate_all loads path fs t = Inl e" for e t
    by (simp add: validate_all_def validate_file_structure_def)
  moreover from False obtain e where "file_structure_loop fs required_files [] True = Inl e"
    using file_structure_loop_Inr [of fs required_files "[]" True]
    by (cases "file_structure_loop fs required_files [] True") auto
  ultimately show ?thesis by simp
qed

section \<open>The event-log loop in closed form\<close>

text \<open>
  When no line escapes, the loop returns the number of parsed lines and one warning
  for each malformed line. \<^verbatim>\<open>invalid_lines\<close> is the number of all lines of the
  stripped content less the parsed ones: the malformed lines and the blank ones.
\<close>

lemma jsonl_loop_Inr:
  "jsonl_loop loads els c ws = Inr (c', ws') \<Longrightarrow>
   c' = c + int (length (filter (parsed loads) (map snd els))) \<and>
   length ws' = length ws + length (filter (malformed loads) (map snd els)) \<and>
   \<not> list_ex (escapes loads) (map snd els)"
proof (induction els arbitrary: c ws)
  case Nil
  then show ?case by simp
next
  case (Cons p els)
  obtain i line where p: "p = (i, line)" by (cases p)
  show ?case
  proof (cases "strip line = []")
    case True
    with Cons.prems have "jsonl_loop loads els c ws = Inr (c', ws')" by (simp add: p)
    from Cons.IH [OF this] True show ?thesis
      by (simp add: p parsed_def malformed_def escapes_def blank_def)
  next
    case False
    show ?thesis
    proof (cases "loads line")
      case Parsed
      with False Cons.prems have "jsonl_loop loads els (c + 1) ws = Inr (c', ws')"
        by (simp add: p)
      from Cons.IH [OF this] False Parsed show ?thesis
        by (simp add: p parsed_def malformed_def escapes_def blank_def)
    next
      case (JSONDecodeError e)
      with False Cons.prems
      have "jsonl_loop loads els c
              (ws @ [''Invalid JSON on line '' @ str_int (int i + 1) @ '': '' @ e]) = Inr (c', ws')"
        by (simp add: p)
      from Cons.IH [OF this] False JSONDecodeError show ?thesis
        by (simp add: p parsed_def malformed_def escapes_def blank_def)
    next
      case (OtherException e)
      with False Cons.prems show ?thesis by (simp add: p)
    qed
  qed
qed

lemma jsonl_loop_returns:
  "\<not> list_ex (escapes loads) (map snd els) \<Longrightarrow> \<exists>c' ws'. jsonl_loop loads els c ws = Inr (c', ws')"
proof (induction els arbitrary: c ws)
  case Nil
  then show ?case by simp
next
  case (Cons p els)
  obtain i line where p: "p = (i, line)" by (cases p)
  from Cons.prems have rest: "\<not> list_ex (escapes loads) (map snd els)"
    and here: "\<not> escapes loads line" by (simp_all add: p)
  show ?case
    using Cons.IH [OF rest] here
    by (cases "loads line") (simp_all add: p escapes_def blank_def)
qed

lemma jsonl_loop_raises:
  "jsonl_loop loads els c ws = Inl e \<Longrightarrow> list_ex (escapes loads) (map snd els)"
  using jsonl_loop_returns [of loads els c ws] by auto

lemma map_snd_enumerate: "map snd (enumerate xs) = xs"
  by (simp add: enumerate_def)

lemma line_kinds:
  "\<not> list_ex (escapes loads) xs \<Longrightarrow>
   length xs = length (filter (parsed loads) xs) + length (filter (malformed loads) xs)
     + length (filter blank xs)"
proof (induction xs)
  case Nil
  then show ?case by simp
next
  case (Cons x xs)
  then show ?case
    by (cases "loads x") (auto simp: parsed_def malformed_def escapes_def)
qed

lemma nonblank_kinds:
  "\<not> list_ex (escapes loads) xs \<Longrightarrow>
   length (filter (\<lambda>l. \<not> blank l) xs) =
     length (filter (parsed loads) xs) + length (filter (malformed loads) xs)"
proof (induction xs)
  case Nil
  then show ?case by simp
next
  case (Cons x xs)
  then show ?case
    by (cases "loads x") (auto simp: parsed_def malformed_def escapes_def)
qed

lemma int_sum_pos: "(0 < int m + int b) = (\<not> (m = 0 \<and> b = 0))"
  by (cases m; cases b) simp_all

lemma validate_jsonl_structure_eq:
  assumes "\<not> list_ex (escapes loads) (log_lines content)"
  shows "\<exists>ws. length ws = length (filter (malformed loads) (log_lines content)) \<and>
     validate_jsonl_structure loads filename content =
       Inr \<lparr>valid = (length (filter (malformed loads) (log_lines content)) = 0 \<and>
                    length (filter blank (log_lines content)) = 0),
            warnings = Some ws,
            metrics = Some
              [(''total_lines'', int (length (log_lines content))),
               (''valid_json_lines'', int (length (filter (parsed loads) (log_lines content)))),
               (''invalid_lines'', int (length (filter (malformed loads) (log_lines content)))
                  + int (length (filter blank (log_lines content))))],
            error = (if length (filter (malformed loads) (log_lines content)) = 0 \<and>
                        length (filter blank (log_lines content)) = 0 then None
                     else Some (str_int (int (length (filter (malformed loads) (log_lines content)))
                        + int (length (filter blank (log_lines content)))) @ '' invalid JSON lines''))\<rparr>"
proof -
  let ?ls = "log_lines content"
  from assms have "\<not> list_ex (escapes loads) (map snd (enumerate ?ls))"
    by (simp add: map_snd_enumerate)
  from jsonl_loop_returns [OF this, of 0 "[]"]
  obtain c' ws' where run: "jsonl_loop loads (enumerate ?ls) 0 [] = Inr (c', ws')" by blast
  from jsonl_loop_Inr [OF run]
  have c': "c' = int (length (filter (parsed loads) ?ls))"
    and ws': "length ws' = length (filter (malformed loads) ?ls)"
    by (simp_all add: map_snd_enumerate)
  have total: "int (length ?ls) - c' =
      int (length (filter (malformed loads) ?ls)) + int (length (filter blank ?ls))"
    using line_kinds [OF assms] c' by simp
  have pos: "(0 < int (length ?ls) - c') =
      (\<not> (length (filter (malformed loads) ?ls) = 0 \<and> length (filter blank ?ls) = 0))"
    unfolding total by (rule int_sum_pos)
  show ?thesis
  proof (cases "length (filter (malformed loads) ?ls) = 0 \<and> length (filter blank ?ls) = 0")
    case True
    with pos have "\<not> 0 < int (length ?ls) - c'" by simp
    with run ws' True total c' show ?thesis
      by (simp add: validate_jsonl_structure_def log_lines_def [symmetric] Let_def)
  next
    case False
    with pos have "0 < int (length ?ls) - c'" by simp
    with run ws' False total c' show ?thesis
      by (simp add: validate_jsonl_structure_def log_lines_def [symmetric] Let_def)
  qed
qed

text \<open>A line is blank when all its characters are whitespace, and so is a text all of
  whose lines are blank.\<close>

lemma split_on_nonempty: "split_on sep s \<noteq> []"
  by (induction s) auto

lemma blank_iff: "blank line = list_all isspace line"
proof -
  have "dropWhile isspace (rev (dropWhile isspace line)) = [] \<longleftrightarrow> dropWhile isspace line = []"
  proof
    assume a: "dropWhile isspace (rev (dropWhile isspace line)) = []"
    show "dropWhile isspace line = []"
    proof (rule ccontr)
      assume b: "dropWhile isspace line \<noteq> []"
      then have "\<not> isspace (hd (dropWhile isspace line))" by (rule hd_dropWhile)
      moreover from a b have "isspace (hd (dropWhile isspace line))"
        by (simp add: dropWhile_eq_Nil_conv)
      ultimately show False by simp
    qed
  next
    assume c: "dropWhile isspace line = []"
    show "dropWhile isspace (rev (dropWhile isspace line)) = []"
      unfolding c by simp
  qed
  then have "blank line \<longleftrightarrow> dropWhile isspace line = []"
    by (simp add: blank_def strip_def)
  also have "\<dots> \<longleftrightarrow> list_all isspace line"
    by (simp add: dropWhile_eq_Nil_conv list_all_iff)
  finally show ?thesis .
qed

lemma strip_Nil: "strip [] = []"
  by (simp add: strip_def)

lemma blank_lines_iff: "list_all blank (split_on newline content) = list_all isspace content"
proof (induction content)
  case Nil
  then show ?case by (simp add: blank_iff)
next
  case (Cons c cs)
  have nl: "isspace newline" by (simp add: isspace_def newline_def)
  obtain l ls where r: "split_on newline cs = l # ls"
    using split_on_nonempty [of newline cs] by (cases "split_on newline cs") auto
  from Cons show ?case
    by (auto simp: blank_iff r nl)
qed

lemma log_lines_blank:
  assumes "list_all blank (split_on newline content)"
  shows "log_lines content = [[]]"
proof -
  from assms have "list_all isspace content" by (simp add: blank_lines_iff)
  then have "blank content" by (simp add: blank_iff)
  then show ?thesis by (simp add: log_lines_def blank_def)
qed

lemma gap_log_lines:
  "log_lines ''{}\<newline>\<newline>{}'' = [''{}'', '''', ''{}'']"
  by code_simp

lemma gap_log_value:
  "validate_jsonl_structure sample_loads ''runtime_observations.jsonl'' ''{}\<newline>\<newline>{}'' =
     Inr \<lparr>valid = False, warnings = Some [],
          metrics = Some [(''total_lines'', 3), (''valid_json_lines'', 2), (''invalid_lines'', 1)],
          error = Some ''1 invalid JSON lines''\<rparr>"
  by code_simp

lemma entry_of_missing:
  "path_exists (fs n) = Inr False \<Longrightarrow>
   entry_of fs n d = (\<lparr>exists = False, readable = False, size_bytes = 0,
                       description = d, file_error = None\<rparr>, False)"
  by (simp add: entry_of_def exists_value_def file_entry_def)

lemma returns_if_missing:
  "path_exists (fs n) = Inr False \<Longrightarrow> exists_returns fs n"
  by (simp add: exists_returns_def)

lemma empty_pack_missing: "empty_pack n = missing_path"
  by (simp add: empty_pack_def pack_of_def)

lemma brief_pack_returns:
  "list_all (exists_returns (brief_pack log)) (map fst required_files)"
  by (simp add: required_files_def exists_returns_def brief_pack_def pack_of_def regular_file_def)

lemma brief_pack_log: "brief_pack log ''runtime_observations.jsonl'' = regular_file log"
  by (simp add: brief_pack_def pack_of_def)

section \<open>Examples evaluated\<close>

text \<open>
  The report of the pack whose technical-domains document has ten words and whose
  event log has three lines \<^verbatim>\<open>{}\<close>, and the results for the event logs of the
  other examples.
\<close>

lemma brief_report:
  "validate_all sample_loads ''packs/alice'' (brief_pack ''{}\<newline>{}\<newline>{}'') ''2025-01-01T00:00:00'' =
     Inr brief_report_value"
  by code_simp

lemma locked_log_value:
  \<open>validate_content sample_loads ''runtime_observations.jsonl'' (regular_file ''{}\<newline>{"bad":}'') =
     \<lparr>valid = False,
      warnings = Some [''Invalid JSON on line 2: Expecting value: line 1 column 8 (char 7)''],
      metrics = Some [(''total_lines'', 2), (''valid_json_lines'', 1), (''invalid_lines'', 1)],
      error = Some ''1 invalid JSON lines''\<rparr>\<close>
  by code_simp

lemma locked_log_lines: \<open>log_lines ''{}\<newline>{"bad":}'' = [''{}'', ''{"bad":}'']\<close>
  by code_simp

lemma gap_bad_value:
  \<open>validate_content sample_loads ''runtime_observations.jsonl''
      (regular_file ''{"a": 1}\<newline>\<newline>{"bad":}'') =
     \<lparr>valid = False,
      warnings = Some [''Invalid JSON on line 3: Expecting value: line 1 column 8 (char 7)''],
      metrics = Some [(''total_lines'', 3), (''valid_json_lines'', 1), (''invalid_lines'', 2)],
      error = Some ''2 invalid JSON lines''\<rparr>\<close>
  by code_simp

lemma gap_fixed_value:
  \<open>validate_content sample_loads ''runtime_observations.jsonl''
      (regular_file ''{"a": 1}\<newline>\<newline>{"b": 2}'') =
     \<lparr>valid = False, warnings = Some [],
      metrics = Some [(''total_lines'', 3), (''valid_json_lines'', 2), (''invalid_lines'', 1)],
      error = Some ''1 invalid JSON lines''\<rparr>\<close>
  by code_simp

lemma gap_fixed_lines:
  \<open>log_lines ''{"a": 1}\<newline>\<newline>{"b": 2}'' = [''{"a": 1}'', '''', ''{"b": 2}'']\<close>
  by code_simp

section \<open>Recommendations\<close>

text \<open>
  Claim C8. The recommendations of a run are the concatenation of one note
  \<^verbatim>\<open>Consider expanding <name> - currently very brief\<close> for each entry of the
  file-structure dictionary whose recorded size is below 100, in the order of that
  dictionary, followed by every warning of every entry of the content-validation
  dictionary, each rendered as \<^verbatim>\<open><name>: <warning>\<close>, artifact by artifact and
  warning by warning. Nothing is removed, so a repeated warning is repeated. The
  file-structure dictionary has the five required names in their order of enumeration.
\<close>

theorem recommendations_flattened:
  assumes "validate_all loads path fs now = Inr r"
  shows "recommendations (generate_recommendations res) =
     map (\<lambda>(n, fi). ''Consider expanding '' @ n @ '' - currently very brief'')
       (filter (\<lambda>(n, fi). size_bytes fi < 100) (file_structure res)) @
     concat (map (\<lambda>(n, ci). map (\<lambda>w. n @ '': '' @ w)
                    (case warnings ci of None \<Rightarrow> [] | Some ws \<Rightarrow> ws))
               (content_validation res))
   \<and> recommendations r =
     map (\<lambda>(n, fi). ''Consider expanding '' @ n @ '' - currently very brief'')
       (filter (\<lambda>(n, fi). size_bytes fi < 100) (file_structure r)) @
     concat (map (\<lambda>(n, ci). map (\<lambda>w. n @ '': '' @ w)
                    (case warnings ci of None \<Rightarrow> [] | Some ws \<Rightarrow> ws))
               (content_validation r))
   \<and> map fst (file_structure r) = map fst required_files"
  unfolding validate_all_report [OF assms]
  by (simp add: generate_recommendations_def report_of_def size_loop_eq content_loop_eq
      expand_note_def split_beta)

theorem recommendations_flattened_witness:
  "validate_all sample_loads ''packs/alice'' (brief_pack ''{}\<newline>{}\<newline>{}'')
     ''2025-01-01T00:00:00'' = Inr brief_report_value \<and>
   recommendations brief_report_value =
     [''Consider expanding persona.md - currently very brief'',
      ''Consider expanding relationship_dynamics.md - currently very brief'',
      ''Consider expanding technical_domains.md - currently very brief'',
      ''Consider expanding stylistic_voice.md - currently very brief'',
      ''Consider expanding runtime_observations.jsonl - currently very brief'',
      ''technical_domains.md: Technical domains seem underdeveloped''] \<and>
   recommendations brief_report_value =
     map (\<lambda>(n, fi). ''Consider expanding '' @ n @ '' - currently very brief'')
       (filter (\<lambda>(n, fi). size_bytes fi < 100) (file_structure brief_report_value)) @
     concat (map (\<lambda>(n, ci). map (\<lambda>w. n @ '': '' @ w)
                    (case warnings ci of None \<Rightarrow> [] | Some ws \<Rightarrow> ws))
               (content_validation brief_report_value))"
proof -
  from recommendations_flattened [OF brief_report]
  have "recommendations brief_report_value =
     map (\<lambda>(n, fi). ''Consider expanding '' @ n @ '' - currently very brief'')
       (filter (\<lambda>(n, fi). size_bytes fi < 100) (file_structure brief_report_value)) @
     concat (map (\<lambda>(n, ci). map (\<lambda>w. n @ '': '' @ w)
                    (case warnings ci of None \<Rightarrow> [] | Some ws \<Rightarrow> ws))
               (content_validation brief_report_value))"
    by blast
  moreover have "recommendations brief_report_value =
     [''Consider expanding persona.md - currently very brief'',
      ''Consider expanding relationship_dynamics.md - currently very brief'',
      ''Consider expanding technical_domains.md - currently very brief'',
      ''Consider expanding stylistic_voice.md - currently very brief'',
      ''Consider expanding runtime_observations.jsonl - currently very brief'',
      ''technical_domains.md: Technical domains seem underdeveloped'']"
    by (simp add: brief_report_value_def)
  ultimately show ?thesis using brief_report by blast
qed

section \<open>A pack with no artifact\<close>

text \<open>
  Claim C6. When none of the five required artifacts exists, the run returns a report
  whose overall status is \<^verbatim>\<open>INVALID\<close> and whose file-structure dictionary has one
  entry for each of the five, each with \<^verbatim>\<open>exists\<close> false (not readable, size 0,
  no error).
\<close>

theorem all_absent_invalid:
  assumes "\<forall>n \<in> set (map fst required_files). path_exists (fs n) = Inr False"
  shows "\<exists>r. validate_all loads path fs now = Inr r \<and>
         overall_status r = ''INVALID'' \<and>
         file_structure r =
           map (\<lambda>(n, d). (n, \<lparr>exists = False, readable = False, size_bytes = 0,
                                 description = d, file_error = None\<rparr>)) required_files \<and>
         length (file_structure r) = 5"
proof -
  from assms have "list_all (exists_returns fs) (map fst required_files)"
    by (simp add: list_all_iff returns_if_missing)
  then have "validate_all loads path fs now = Inr (report_of loads path fs now)"
    by (rule validate_all_eq)
  moreover have "overall_status (report_of loads path fs now) = ''INVALID''"
    using assms by (simp add: report_of_def required_files_def entry_of_missing)
  moreover have "file_structure (report_of loads path fs now) =
           map (\<lambda>(n, d). (n, \<lparr>exists = False, readable = False, size_bytes = 0,
                                 description = d, file_error = None\<rparr>)) required_files"
    using assms by (simp add: report_of_def required_files_def entry_of_missing)
  moreover have "length (file_structure (report_of loads path fs now)) = 5"
    by (simp add: report_of_def required_files_def)
  ultimately show ?thesis by blast
qed

theorem all_absent_invalid_witness:
  "list_all (\<lambda>n. path_exists (empty_pack n) = Inr False) (map fst required_files) \<and>
   (\<exists>r. validate_all sample_loads ''packs/alice'' empty_pack ''2025-01-01T00:00:00'' = Inr r \<and>
        overall_status r = ''INVALID'' \<and>
        map (\<lambda>(n, fr). (n, exists fr)) (file_structure r) =
          [(''persona.md'', False), (''relationship_dynamics.md'', False),
           (''technical_domains.md'', False), (''stylistic_voice.md'', False),
           (''runtime_observations.jsonl'', False)])"
proof -
  have h: "\<forall>n \<in> set (map fst required_files). path_exists (empty_pack n) = Inr False"
    by (simp add: empty_pack_missing missing_path_def)
  from all_absent_invalid [OF h, of sample_loads "''packs/alice''" "''2025-01-01T00:00:00''"]
  obtain r where r: "validate_all sample_loads ''packs/alice'' empty_pack ''2025-01-01T00:00:00'' = Inr r"
    "overall_status r = ''INVALID''"
    "file_structure r =
           map (\<lambda>(n, d). (n, \<lparr>exists = False, readable = False, size_bytes = 0,
                                 description = d, file_error = None\<rparr>)) required_files"
    by blast
  from r(3) have "map (\<lambda>(n, fr). (n, exists fr)) (file_structure r) =
          [(''persona.md'', False), (''relationship_dynamics.md'', False),
           (''technical_domains.md'', False), (''stylistic_voice.md'', False),
           (''runtime_observations.jsonl'', False)]"
    by (simp add: required_files_def)
  with r(1,2) h show ?thesis by (auto simp: list_all_iff)
qed

section \<open>Structured documents\<close>

text \<open>
  Claim C7. \<^verbatim>\<open>_validate_markdown_structure\<close> returns \<^verbatim>\<open>valid\<close> true and no error
  for every file name and every content. When the stripped content does not start
  with \<^verbatim>\<open>#\<close>, the warnings begin with \<^verbatim>\<open>Missing main header\<close>; the checks for the
  persona, relationship and technical-domains documents append warnings after it and
  leave \<^verbatim>\<open>valid\<close> alone.
\<close>

theorem markdown_never_invalid:
  "valid (validate_markdown_structure filename content) \<and>
   error (validate_markdown_structure filename content) = None \<and>
   (\<not> startswith (strip content) ''#'' \<longrightarrow>
      (\<exists>ws. warnings (validate_markdown_structure filename content)
              = Some (''Missing main header'' # ws)))"
  using persona_sections_append [of content required_sections "[''Missing main header'']"]
  by (simp add: validate_markdown_structure_def Let_def)

theorem markdown_never_invalid_witness:
  "\<not> startswith (strip ''notes without a header'') ''#'' \<and>
   valid (validate_markdown_structure ''persona.md'' ''notes without a header'') \<and>
   (\<exists>ws. warnings (validate_markdown_structure ''persona.md'' ''notes without a header'')
           = Some (''Missing main header'' # ws))"
proof -
  have h: "\<not> startswith (strip ''notes without a header'') ''#''"
    by code_simp
  from markdown_never_invalid [of "''persona.md''" "''notes without a header''"] h
  show ?thesis by blast
qed

section \<open>A second run\<close>

text \<open>
  Claim C5. After \<^verbatim>\<open>main\<close> has run on a pack directory and written (or not
  written) its report file, a run of \<^verbatim>\<open>validate_all\<close> on that directory returns
  the report of a run on the directory as it was before, the time stamp apart: the
  same file structure, content validation, overall status, cross references and
  recommendations (and a run that an exception leaves is left by the same exception
  again). The report file is none of the five paths the validator reads.
\<close>

theorem second_run_same_report:
  "validate_all loads path (snd (main loads dump write_error argv dir_exists fs t1)) t2 =
     (case validate_all loads path fs t1 of
        Inl e \<Rightarrow> Inl e
      | Inr r \<Rightarrow> Inr (r\<lparr>timestamp := t2\<rparr>)) \<and>
   map_sum id file_structure
       (validate_all loads path (snd (main loads dump write_error argv dir_exists fs t1)) t2) =
     map_sum id file_structure (validate_all loads path fs t1) \<and>
   map_sum id content_validation
       (validate_all loads path (snd (main loads dump write_error argv dir_exists fs t1)) t2) =
     map_sum id content_validation (validate_all loads path fs t1) \<and>
   map_sum id overall_status
       (validate_all loads path (snd (main loads dump write_error argv dir_exists fs t1)) t2) =
     map_sum id overall_status (validate_all loads path fs t1)"
proof -
  have "\<forall>n \<in> set (map fst required_files).
          snd (main loads dump write_error argv dir_exists fs t1) n = fs n"
    by (simp add: main_def required_files_def split: sum.splits option.splits)
  then have "validate_all loads path (snd (main loads dump write_error argv dir_exists fs t1)) t2 =
             validate_all loads path fs t2"
    by (rule validate_all_cong)
  also have "\<dots> = (case validate_all loads path fs t1 of
        Inl e \<Rightarrow> Inl e
      | Inr r \<Rightarrow> Inr (r\<lparr>timestamp := t2\<rparr>))"
    by (rule validate_all_timestamp)
  finally show ?thesis by (simp split: sum.splits)
qed

section \<open>A missing artifact\<close>

text \<open>
  Claim C10. In the report of a run, a required artifact that does not exist has no
  entry in the content-validation dictionary; its entry in the file-structure
  dictionary records \<^verbatim>\<open>exists\<close> false and size 0, and so the recommendations
  contain the note \<^verbatim>\<open>Consider expanding <name> - currently very brief\<close> for it.
\<close>

theorem missing_artifact_entries:
  assumes "n \<in> set (map fst required_files)" and "path_exists (fs n) = Inr False"
    and "validate_all loads path fs now = Inr r"
  shows "n \<notin> fst ` set (content_validation r) \<and>
         (\<exists>d. (n, d) \<in> set required_files \<and>
              (n, \<lparr>exists = False, readable = False, size_bytes = 0, description = d,
                    file_error = None\<rparr>) \<in> set (file_structure r)) \<and>
         ''Consider expanding '' @ n @ '' - currently very brief'' \<in> set (recommendations r)"
proof -
  let ?fr = "\<lambda>d. \<lparr>exists = False, readable = False, size_bytes = 0, description = d,
                    file_error = None\<rparr>"
  note r = validate_all_report [OF assms(3)]
  from assms(1) obtain d where d: "(n, d) \<in> set required_files" by auto
  have entry: "(n, ?fr d) \<in> set (file_structure r)"
  proof -
    have "(n, fst (entry_of fs n d)) \<in> set (file_structure r)"
      unfolding r report_of_def using d by force
    then show ?thesis by (simp add: entry_of_missing [of fs n, OF assms(2)])
  qed
  have no_content: "n \<notin> fst ` set (content_validation r)"
    unfolding r report_of_def using assms(2) by (auto simp: exists_value_def)
  have "expand_note n \<in> set (size_loop (file_structure r) [])"
    unfolding size_loop_eq using entry by force
  moreover have "recommendations r =
      content_loop (content_validation r) (size_loop (file_structure r) [])"
    unfolding r report_of_def by simp
  ultimately have "expand_note n \<in> set (recommendations r)"
    by (simp add: content_loop_eq)
  then show ?thesis
    using no_content entry d by (auto simp: expand_note_def)
qed

theorem missing_artifact_entries_witness:
  "''stylistic_voice.md'' \<in> set (map fst required_files) \<and>
   path_exists (without (brief_pack ''{}'') ''stylistic_voice.md'' ''stylistic_voice.md'')
     = Inr False \<and>
   (\<exists>r. validate_all sample_loads ''packs/alice''
          (without (brief_pack ''{}'') ''stylistic_voice.md'') ''2025-01-01T00:00:00'' = Inr r \<and>
        ''stylistic_voice.md'' \<notin> fst ` set (content_validation r) \<and>
        ''Consider expanding stylistic_voice.md - currently very brief''
          \<in> set (recommendations r))"
proof -
  let ?fs = "without (brief_pack ''{}'') ''stylistic_voice.md''"
  have h1: "''stylistic_voice.md'' \<in> set (map fst required_files)"
    by (simp add: required_files_def)
  have h2: "path_exists (?fs ''stylistic_voice.md'') = Inr False"
    by (simp add: without_def missing_path_def)
  have "list_all (exists_returns ?fs) (map fst required_files)"
    by (simp add: required_files_def exists_returns_def without_def missing_path_def
        brief_pack_def pack_of_def regular_file_def)
  then have h3: "validate_all sample_loads ''packs/alice'' ?fs ''2025-01-01T00:00:00'' =
      Inr (report_of sample_loads ''packs/alice'' ?fs ''2025-01-01T00:00:00'')"
    by (rule validate_all_eq)
  from missing_artifact_entries
      [where n = "''stylistic_voice.md''" and fs = ?fs, OF h1 h2 h3] h1 h2 h3
  show ?thesis by auto
qed

section \<open>The overall status\<close>

text \<open>
  Claim C1 (when every artifact exists, is readable and is valid, a non-empty
  warnings list makes the overall status \<^verbatim>\<open>VALID_WITH_WARNINGS\<close>). The validator
  does not look at the warnings when it sets the status: the pack whose
  technical-domains document has ten words has that document's warning and the
  overall status \<^verbatim>\<open>VALID\<close>.
\<close>

theorem brief_domains_counterexample:
  "validate_all sample_loads ''packs/alice'' (brief_pack ''{}\<newline>{}\<newline>{}'')
     ''2025-01-01T00:00:00'' = Inr brief_report_value \<and>
   list_all (\<lambda>(n, fr). exists fr \<and> readable fr) (file_structure brief_report_value) \<and>
   list_all (\<lambda>(n, v). valid v) (content_validation brief_report_value) \<and>
   map_of (map (\<lambda>(n, v). (n, warnings v)) (content_validation brief_report_value))
     ''technical_domains.md'' = Some (Some [''Technical domains seem underdeveloped'']) \<and>
   overall_status brief_report_value = ''VALID'' \<and>
   overall_status brief_report_value \<noteq> ''VALID_WITH_WARNINGS''"
  using brief_report by (simp add: brief_report_value_def)

text \<open>
  Claim C1 as the validator has it. \<^verbatim>\<open>VALID_WITH_WARNINGS\<close> is the status for a
  failed cross-reference check, and \<^verbatim>\<open>_validate_cross_references\<close> always returns
  true: no report has that status. When every required artifact exists, is readable
  and has no error recorded, and every content validation is valid, the status is
  \<^verbatim>\<open>VALID\<close>, whatever the warnings are.
\<close>

theorem status_valid_despite_warnings:
  assumes "validate_all loads path fs now = Inr r"
  shows "overall_status r \<noteq> ''VALID_WITH_WARNINGS'' \<and>
   (list_all (\<lambda>(n, fr). exists fr \<and> readable fr \<and> file_error fr = None) (file_structure r) \<and>
    list_all (\<lambda>(n, v). valid v) (content_validation r)
    \<longrightarrow> overall_status r = ''VALID'')"
proof -
  note r = validate_all_report [OF assms]
  have a: "list_all (\<lambda>(n, fr). exists fr \<and> readable fr \<and> file_error fr = None) (file_structure r)
           \<Longrightarrow> list_all (\<lambda>(n, d). snd (entry_of fs n d)) required_files"
    unfolding r report_of_def
    by (simp add: list_all_iff split_beta entry_of_def file_entry_ok)
  have b: "list_all (\<lambda>(n, v). valid v) (content_validation r)
           \<Longrightarrow> list_all (\<lambda>n. valid (validate_content loads n (fs n)))
                 (filter (exists_value fs) (map fst required_files))"
    unfolding r report_of_def by (simp add: list_all_iff)
  have c: "overall_status r =
      (if list_all (\<lambda>(n, d). snd (entry_of fs n d)) required_files \<and>
          list_all (\<lambda>n. valid (validate_content loads n (fs n)))
            (filter (exists_value fs) (map fst required_files))
       then ''VALID'' else ''INVALID'')"
    unfolding r report_of_def by simp
  show ?thesis
    using a b by (auto simp: c)
qed

theorem status_valid_despite_warnings_witness:
  "validate_all sample_loads ''packs/alice'' (brief_pack ''{}\<newline>{}\<newline>{}'')
     ''2025-01-01T00:00:00'' = Inr brief_report_value \<and>
   list_all (\<lambda>(n, fr). exists fr \<and> readable fr \<and> file_error fr = None)
      (file_structure brief_report_value) \<and>
   list_all (\<lambda>(n, v). valid v) (content_validation brief_report_value) \<and>
   recommendations brief_report_value \<noteq> [] \<and>
   overall_status brief_report_value = ''VALID''"
proof -
  have h1: "list_all (\<lambda>(n, fr). exists fr \<and> readable fr \<and> file_error fr = None)
      (file_structure brief_report_value)"
    by (simp add: brief_report_value_def)
  have h2: "list_all (\<lambda>(n, v). valid v) (content_validation brief_report_value)"
    by (simp add: brief_report_value_def)
  have h3: "recommendations brief_report_value \<noteq> []"
    by (simp add: brief_report_value_def)
  from status_valid_despite_warnings [OF brief_report] h1 h2
  have "overall_status brief_report_value = ''VALID''" by blast
  with brief_report h1 h2 h3 show ?thesis by blast
qed

section \<open>Event logs\<close>

text \<open>
  Claim C3 (an event log with no non-blank line is valid). The validator returns
  otherwise. For every content all of whose lines are blank, the empty file included,
  the stripped content is empty, \<^verbatim>\<open>''.split('\n')\<close> is one empty line, the loop skips
  it, and \<^verbatim>\<open>invalid_lines = len(lines) - valid_json_count\<close> is 1: the result has
  \<^verbatim>\<open>valid\<close> false and the error \<^verbatim>\<open>1 invalid JSON lines\<close>, with no warning.
\<close>

theorem blank_log_invalid:
  assumes "list_all blank (split_on newline content)"
  shows "validate_jsonl_structure loads filename content =
           Inr \<lparr>valid = False, warnings = Some [],
                metrics = Some [(''total_lines'', 1), (''valid_json_lines'', 0),
                                (''invalid_lines'', 1)],
                error = Some ''1 invalid JSON lines''\<rparr>"
proof -
  have one: "str_int 1 = ''1''" by code_simp
  show ?thesis
    using log_lines_blank [OF assms] one
    by (simp add: validate_jsonl_structure_def log_lines_def [symmetric] enumerate_def strip_Nil)
qed

theorem blank_log_invalid_witness:
  "list_all blank (split_on newline '''') \<and>
   validate_jsonl_structure sample_loads ''runtime_observations.jsonl'' '''' =
     Inr \<lparr>valid = False, warnings = Some [],
          metrics = Some [(''total_lines'', 1), (''valid_json_lines'', 0), (''invalid_lines'', 1)],
          error = Some ''1 invalid JSON lines''\<rparr>"
proof -
  have h: "list_all blank (split_on newline '''')"
    by (simp add: blank_def strip_def)
  from blank_log_invalid [OF h, of sample_loads "''runtime_observations.jsonl''"] h
  show ?thesis by simp
qed

text \<open>
  Claim C2 (with \<open>N\<close> non-blank lines of which \<open>M\<close> are malformed:
  \<^verbatim>\<open>valid_json_lines\<close> is \<open>N - M\<close>, there are \<open>M\<close> warnings, and \<^verbatim>\<open>valid\<close> is
  \<open>M = 0\<close>; blank lines are skipped and not counted as invalid). When no line
  escapes, the validator returns a result whose \<^verbatim>\<open>valid_json_lines\<close> is \<open>N - M\<close>
  and which has \<open>M\<close> warnings, but whose \<^verbatim>\<open>invalid_lines\<close> is \<open>M\<close> plus the
  number of blank lines of the stripped content, and whose \<^verbatim>\<open>valid\<close> is true only
  when both are 0. The log \<^verbatim>\<open>{}\<close>, blank line, \<^verbatim>\<open>{}\<close> has \<open>N = 2\<close> and
  \<open>M = 0\<close> and is invalid.
\<close>

theorem jsonl_counts:
  assumes "\<not> list_ex (escapes loads) (log_lines content)"
  shows "\<exists>v ws.
     validate_jsonl_structure loads filename content = Inr v \<and>
     metrics v = Some
       [(''total_lines'', int (length (log_lines content))),
        (''valid_json_lines'',
           int (length (filter (\<lambda>l. \<not> blank l) (log_lines content)))
             - int (length (filter (malformed loads) (log_lines content)))),
        (''invalid_lines'',
           int (length (filter (malformed loads) (log_lines content)))
             + int (length (filter blank (log_lines content))))] \<and>
     warnings v = Some ws \<and>
     length ws = length (filter (malformed loads) (log_lines content)) \<and>
     valid v = (length (filter (malformed loads) (log_lines content)) = 0 \<and>
                length (filter blank (log_lines content)) = 0)"
proof -
  from validate_jsonl_structure_eq [OF assms, of filename]
  obtain ws where ws: "length ws = length (filter (malformed loads) (log_lines content))"
    and v: "validate_jsonl_structure loads filename content =
       Inr \<lparr>valid = (length (filter (malformed loads) (log_lines content)) = 0 \<and>
                    length (filter blank (log_lines content)) = 0),
            warnings = Some ws,
            metrics = Some
              [(''total_lines'', int (length (log_lines content))),
               (''valid_json_lines'', int (length (filter (parsed loads) (log_lines content)))),
               (''invalid_lines'', int (length (filter (malformed loads) (log_lines content)))
                  + int (length (filter blank (log_lines content))))],
            error = (if length (filter (malformed loads) (log_lines content)) = 0 \<and>
                        length (filter blank (log_lines content)) = 0 then None
                     else Some (str_int (int (length (filter (malformed loads) (log_lines content)))
                        + int (length (filter blank (log_lines content)))) @ '' invalid JSON lines''))\<rparr>"
    by blast
  have "int (length (filter (parsed loads) (log_lines content))) =
        int (length (filter (\<lambda>l. \<not> blank l) (log_lines content)))
          - int (length (filter (malformed loads) (log_lines content)))"
    using nonblank_kinds [OF assms] by simp
  with ws v show ?thesis by simp
qed

theorem jsonl_counts_witness:
  "\<not> list_ex (escapes sample_loads) (log_lines ''{}\<newline>\<newline>{}'') \<and>
   length (filter (\<lambda>l. \<not> blank l) (log_lines ''{}\<newline>\<newline>{}'')) = 2 \<and>
   length (filter (malformed sample_loads) (log_lines ''{}\<newline>\<newline>{}'')) = 0 \<and>
   length (filter blank (log_lines ''{}\<newline>\<newline>{}'')) = 1 \<and>
   validate_jsonl_structure sample_loads ''runtime_observations.jsonl'' ''{}\<newline>\<newline>{}'' =
     Inr \<lparr>valid = False, warnings = Some [],
          metrics = Some [(''total_lines'', 3), (''valid_json_lines'', 2), (''invalid_lines'', 1)],
          error = Some ''1 invalid JSON lines''\<rparr>"
proof -
  have h: "\<not> list_ex (escapes sample_loads) (log_lines ''{}\<newline>\<newline>{}'')"
    unfolding gap_log_lines by (simp add: escapes_def sample_loads_def blank_def strip_def)
  have n: "length (filter (\<lambda>l. \<not> blank l) (log_lines ''{}\<newline>\<newline>{}'')) = 2"
    unfolding gap_log_lines by (simp add: blank_def strip_def isspace_def)
  have m: "length (filter (malformed sample_loads) (log_lines ''{}\<newline>\<newline>{}'')) = 0"
    unfolding gap_log_lines by (simp add: malformed_def sample_loads_def blank_def strip_def)
  have b: "length (filter blank (log_lines ''{}\<newline>\<newline>{}'')) = 1"
    unfolding gap_log_lines by (simp add: blank_def strip_def isspace_def)
  from jsonl_counts [OF h, of "''runtime_observations.jsonl''"] h n m b gap_log_value
  show ?thesis by simp
qed

section \<open>Failures of one artifact\<close>

lemma map_of_tabulate:
  "map_of (map (\<lambda>n. (n, f n)) xs) k = (if k \<in> set xs then Some (f k) else None)"
  by (induction xs) auto

lemma jsonl_suffixes:
  "\<not> endswith ''runtime_observations.jsonl'' ''.md'' \<and>
   endswith ''runtime_observations.jsonl'' ''.jsonl''"
  by (simp add: endswith_def)

lemma error_or_invalid:
  "\<not> valid (validate_content loads n st) \<Longrightarrow> error (validate_content loads n st) \<noteq> None"
  by (auto simp: validate_content_def error_validation_def validate_markdown_structure_def Let_def
      validate_jsonl_structure_def split: sum.splits if_splits prod.splits)

lemma bad_line_invalid:
  assumes "path_read_text st = Inr content"
    and "list_ex (\<lambda>l. malformed loads l \<or> escapes loads l) (log_lines content)"
  shows "\<not> valid (validate_content loads ''runtime_observations.jsonl'' st)"
proof (cases "list_ex (escapes loads) (log_lines content)")
  case True
  have "\<exists>e. validate_jsonl_structure loads ''runtime_observations.jsonl'' content = Inl e"
  proof (cases "jsonl_loop loads (enumerate (log_lines content)) 0 []")
    case (Inl e)
    then show ?thesis
      by (simp add: validate_jsonl_structure_def log_lines_def [symmetric])
  next
    case (Inr p)
    obtain c' ws' where "p = (c', ws')" by (cases p)
    with Inr jsonl_loop_Inr [of loads "enumerate (log_lines content)" 0 "[]" c' ws'] True
    show ?thesis by (simp add: map_snd_enumerate)
  qed
  with assms(1) show ?thesis
    by (auto simp: validate_content_def jsonl_suffixes error_validation_def)
next
  case False
  with assms(2) have "list_ex (malformed loads) (log_lines content)"
    by (auto simp: list_ex_iff)
  then have "filter (malformed loads) (log_lines content) \<noteq> []"
    by (auto simp: list_ex_iff filter_empty_conv)
  with validate_jsonl_structure_eq [OF False, of "''runtime_observations.jsonl''"] assms(1)
  show ?thesis
    by (auto simp: validate_content_def jsonl_suffixes)
qed

text \<open>
  When \<^verbatim>\<open>exists()\<close> returns on the five required paths, the report has a
  file-structure entry for each required artifact and a content entry for each of them
  that exists, in the order of enumeration, whatever happens to the others. Each entry
  is what the checks return on that artifact's own path. An exception of
  \<^verbatim>\<open>is_file()\<close> or of \<^verbatim>\<open>stat()\<close> is recorded as the \<^verbatim>\<open>error\<close> of the
  file-structure entry; a failed read is recorded as
  \<^verbatim>\<open>{'valid': False, 'error': str(e)}\<close>; an event log with a malformed line, or
  with a line on which the parser raises anything else, has an entry with \<^verbatim>\<open>valid\<close>
  false and an error message. The overall status is \<^verbatim>\<open>VALID\<close> or \<^verbatim>\<open>INVALID\<close>.
\<close>

lemma captured_when_exists_returns:
  assumes "validate_all loads path fs now = Inr r"
  shows "map fst (file_structure r) = map fst required_files \<and>
     (\<forall>n d. (n, d) \<in> set required_files \<longrightarrow>
        map_of (file_structure r) n = Some (fst (entry_of fs n d))) \<and>
     (\<forall>n d e. (n, d) \<in> set required_files \<and> path_exists (fs n) = Inr True \<and>
        path_is_file (fs n) = Inl e \<longrightarrow>
        map_of (file_structure r) n =
          Some \<lparr>exists = True, readable = False, size_bytes = 0, description = d,
                file_error = Some e\<rparr>) \<and>
     (\<forall>n d e f. (n, d) \<in> set required_files \<and> path_exists (fs n) = Inr True \<and>
        path_is_file (fs n) = Inr f \<and> path_stat_size (fs n) = Inl e \<longrightarrow>
        map_of (file_structure r) n =
          Some \<lparr>exists = True, readable = f, size_bytes = 0, description = d,
                file_error = Some e\<rparr>) \<and>
     map fst (content_validation r) = filter (exists_value fs) (map fst required_files) \<and>
     (\<forall>n \<in> set (map fst required_files). path_exists (fs n) = Inr True \<longrightarrow>
        map_of (content_validation r) n = Some (validate_content loads n (fs n))) \<and>
     (\<forall>n \<in> set (map fst required_files). \<forall>e.
        path_exists (fs n) = Inr True \<and> path_read_text (fs n) = Inl e \<longrightarrow>
        map_of (content_validation r) n =
          Some \<lparr>valid = False, warnings = None, metrics = None, error = Some e\<rparr>) \<and>
     (\<forall>content.
        path_exists (fs ''runtime_observations.jsonl'') = Inr True \<and>
        path_read_text (fs ''runtime_observations.jsonl'') = Inr content \<and>
        list_ex (\<lambda>l. malformed loads l \<or> escapes loads l) (log_lines content) \<longrightarrow>
        (\<exists>v. map_of (content_validation r) ''runtime_observations.jsonl'' = Some v \<and>
             \<not> valid v \<and> error v \<noteq> None)) \<and>
     (overall_status r = ''VALID'' \<or> overall_status r = ''INVALID'')"
proof -
  let ?names = "map fst required_files"
  note r = validate_all_report [OF assms]
  have keys: "map fst (file_structure r) = ?names"
    unfolding r report_of_def by (simp add: split_beta)
  have fentry: "map_of (file_structure r) n = Some (fst (entry_of fs n d))"
    if "(n, d) \<in> set required_files" for n d
  proof -
    have "distinct (map fst (file_structure r))"
      unfolding keys by (rule distinct_required_files)
    moreover have "(n, fst (entry_of fs n d)) \<in> set (file_structure r)"
      unfolding r report_of_def using that by force
    ultimately show ?thesis by simp
  qed
  have ffailed1: "map_of (file_structure r) n =
      Some \<lparr>exists = True, readable = False, size_bytes = 0, description = d,
            file_error = Some e\<rparr>"
    if "(n, d) \<in> set required_files" "path_exists (fs n) = Inr True"
      "path_is_file (fs n) = Inl e" for n d e
    using fentry [OF that(1)] that(2,3)
    by (simp add: entry_of_def exists_value_def file_entry_def)
  have ffailed2: "map_of (file_structure r) n =
      Some \<lparr>exists = True, readable = f, size_bytes = 0, description = d, file_error = Some e\<rparr>"
    if "(n, d) \<in> set required_files" "path_exists (fs n) = Inr True"
      "path_is_file (fs n) = Inr f" "path_stat_size (fs n) = Inl e" for n d e f
    using fentry [OF that(1)] that(2,3,4)
    by (simp add: entry_of_def exists_value_def file_entry_def)
  have ckeys: "map fst (content_validation r) = filter (exists_value fs) ?names"
    unfolding r report_of_def by (simp add: comp_def)
  have entry: "map_of (content_validation r) n = Some (validate_content loads n (fs n))"
    if "n \<in> set ?names" "path_exists (fs n) = Inr True" for n
    unfolding r report_of_def using that by (simp add: map_of_tabulate exists_value_def)
  have failed: "map_of (content_validation r) n =
      Some \<lparr>valid = False, warnings = None, metrics = None, error = Some e\<rparr>"
    if "n \<in> set ?names" "path_exists (fs n) = Inr True" "path_read_text (fs n) = Inl e" for n e
    using entry [OF that(1,2)] that(3) by (simp add: validate_content_def error_validation_def)
  have log: "\<exists>v. map_of (content_validation r) ''runtime_observations.jsonl'' = Some v \<and>
             \<not> valid v \<and> error v \<noteq> None"
    if "path_exists (fs ''runtime_observations.jsonl'') = Inr True"
      "path_read_text (fs ''runtime_observations.jsonl'') = Inr content"
      "list_ex (\<lambda>l. malformed loads l \<or> escapes loads l) (log_lines content)" for content
  proof -
    have "''runtime_observations.jsonl'' \<in> set ?names" by (simp add: required_files_def)
    from entry [OF this that(1)] bad_line_invalid [OF that(2,3)] error_or_invalid
    show ?thesis by blast
  qed
  have status: "overall_status r = ''VALID'' \<or> overall_status r = ''INVALID''"
    unfolding r report_of_def by simp
  from keys fentry ffailed1 ffailed2 ckeys entry failed log status show ?thesis by blast
qed

text \<open>
  The pack whose persona document cannot be read and whose event log has a malformed
  second line: both failures are entries of the report.
\<close>

lemma locked_pack_paths:
  \<open>locked_persona_pack ''persona.md'' = unreadable_file (errno13 ''packs/alice/persona.md'')\<close>
  \<open>locked_persona_pack ''runtime_observations.jsonl'' = regular_file ''{}\<newline>{"bad":}''\<close>
  by (simp_all add: locked_persona_pack_def brief_pack_def pack_of_def)

lemma locked_pack_returns:
  "list_all (exists_returns locked_persona_pack) (map fst required_files)"
  by (simp add: required_files_def exists_returns_def locked_persona_pack_def brief_pack_def
      pack_of_def regular_file_def unreadable_file_def)

lemma locked_pack_entries:
  \<open>\<exists>r. validate_all sample_loads ''packs/alice'' locked_persona_pack ''2025-01-01T00:00:00'' = Inr r \<and>
   map_of (content_validation r) ''persona.md'' =
     Some \<lparr>valid = False, warnings = None, metrics = None,
           error = Some (errno13 ''packs/alice/persona.md'')\<rparr> \<and>
   map_of (content_validation r) ''runtime_observations.jsonl'' =
     Some \<lparr>valid = False,
           warnings = Some [''Invalid JSON on line 2: Expecting value: line 1 column 8 (char 7)''],
           metrics = Some [(''total_lines'', 2), (''valid_json_lines'', 1), (''invalid_lines'', 1)],
           error = Some ''1 invalid JSON lines''\<rparr>\<close>
proof -
  let ?r = "report_of sample_loads ''packs/alice'' locked_persona_pack ''2025-01-01T00:00:00''"
  have run: "validate_all sample_loads ''packs/alice'' locked_persona_pack ''2025-01-01T00:00:00'' =
      Inr ?r"
    using locked_pack_returns by (rule validate_all_eq)
  have names: "''persona.md'' \<in> set (map fst required_files)"
    "''runtime_observations.jsonl'' \<in> set (map fst required_files)"
    by (simp_all add: required_files_def)
  have h1: "path_exists (locked_persona_pack ''persona.md'') = Inr True"
    and h2: "path_read_text (locked_persona_pack ''persona.md'') =
      Inl (errno13 ''packs/alice/persona.md'')"
    by (simp_all add: locked_pack_paths unreadable_file_def)
  have h4: "path_exists (locked_persona_pack ''runtime_observations.jsonl'') = Inr True"
    by (simp add: locked_pack_paths regular_file_def)
  note inst = captured_when_exists_returns [OF run]
  from inst names(1) h1 h2 have persona: "map_of (content_validation ?r) ''persona.md'' =
      Some \<lparr>valid = False, warnings = None, metrics = None,
            error = Some (errno13 ''packs/alice/persona.md'')\<rparr>"
    by blast
  from inst names(2) h4 have "map_of (content_validation ?r) ''runtime_observations.jsonl'' =
      Some (validate_content sample_loads ''runtime_observations.jsonl''
              (locked_persona_pack ''runtime_observations.jsonl''))"
    by blast
  then have log: \<open>map_of (content_validation ?r) ''runtime_observations.jsonl'' =
     Some \<lparr>valid = False,
           warnings = Some [''Invalid JSON on line 2: Expecting value: line 1 column 8 (char 7)''],
           metrics = Some [(''total_lines'', 2), (''valid_json_lines'', 1), (''invalid_lines'', 1)],
           error = Some ''1 invalid JSON lines''\<rparr>\<close>
    by (simp add: locked_pack_paths locked_log_value)
  from run persona log show ?thesis by blast
qed

text \<open>
  Claim C9 (an unreadable or malformed artifact never aborts the run, and
  \<^verbatim>\<open>validate_all\<close> always returns a complete report). The validator does otherwise
  when \<^verbatim>\<open>exists()\<close> raises. Each loop calls \<^verbatim>\<open>file_path.exists()\<close> before its
  \<^verbatim>\<open>try\<close>, where the calls of \<^verbatim>\<open>is_file()\<close>, \<^verbatim>\<open>stat()\<close> and
  \<^verbatim>\<open>read_text()\<close> on the same path are inside it. When \<^verbatim>\<open>exists()\<close> raises on a
  required path, an exception leaves the run and there is no report; when it raises on
  the first path, that exception is the one. For a pack directory that exists and may
  not be searched, the run ends with the \<^verbatim>\<open>PermissionError\<close> of
  \<^verbatim>\<open>persona.md\<close>.
\<close>

theorem exists_failure_aborts:
  "(\<forall>n \<in> set (map fst required_files). \<forall>e.
      path_exists (fs n) = Inl e \<longrightarrow> (\<exists>e'. validate_all loads path fs now = Inl e')) \<and>
   (\<forall>e. path_exists (fs ''persona.md'') = Inl e \<longrightarrow> validate_all loads path fs now = Inl e)"
proof -
  have some: "\<exists>e'. validate_all loads path fs now = Inl e'"
    if "n \<in> set (map fst required_files)" "path_exists (fs n) = Inl e" for n e
  proof (cases "validate_all loads path fs now")
    case (Inl e')
    then show ?thesis by blast
  next
    case (Inr r)
    from validate_all_Inr [OF this] that(1) have "exists_returns fs n"
      by (auto simp: list_all_iff)
    with that(2) show ?thesis by (simp add: exists_returns_def)
  qed
  have first: "validate_all loads path fs now = Inl e"
    if "path_exists (fs ''persona.md'') = Inl e" for e
    using that
    by (simp add: validate_all_def validate_file_structure_def required_files_def check_file_def)
  from some first show ?thesis by blast
qed

theorem exists_failure_aborts_witness:
  "''persona.md'' \<in> set (map fst required_files) \<and>
   path_exists (unsearchable_pack ''persona.md'') = Inl (errno13 ''packs/alice/persona.md'') \<and>
   validate_all sample_loads ''packs/alice'' unsearchable_pack ''2025-01-01T00:00:00'' =
     Inl (errno13 ''packs/alice/persona.md'')"
proof -
  have h1: "''persona.md'' \<in> set (map fst required_files)"
    by (simp add: required_files_def)
  have h2: "path_exists (unsearchable_pack ''persona.md'') = Inl (errno13 ''packs/alice/persona.md'')"
    by (simp add: unsearchable_pack_def)
  from exists_failure_aborts [of unsearchable_pack sample_loads "''packs/alice''"
      "''2025-01-01T00:00:00''"] h2
  have "validate_all sample_loads ''packs/alice'' unsearchable_pack ''2025-01-01T00:00:00'' =
     Inl (errno13 ''packs/alice/persona.md'')"
    by blast
  with h1 h2 show ?thesis by blast
qed

section \<open>Repairing an event log\<close>

text \<open>
  Two facts about repairs. An invalid artifact makes the overall status
  \<^verbatim>\<open>INVALID\<close> (\<open>invalid_content_status\<close>), so no repair can make the status
  worse. And a malformed line appended to a log is still there, as its last line,
  after the content is stripped, when the line has no whitespace around it.
\<close>

lemma invalid_content_status:
  assumes "n \<in> set (map fst required_files)" and "path_exists (fs n) = Inr True"
    and "\<not> valid (validate_content loads n (fs n))"
    and "validate_all loads path fs now = Inr r"
  shows "overall_status r = ''INVALID''"
proof -
  from assms(1,2,3) have "\<not> list_all (\<lambda>n. valid (validate_content loads n (fs n)))
      (filter (exists_value fs) (map fst required_files))"
    by (auto simp: list_all_iff exists_value_def)
  then show ?thesis
    unfolding validate_all_report [OF assms(4)] report_of_def by simp
qed

lemma invalid_log_status:
  assumes "\<not> valid (validate_content loads ''runtime_observations.jsonl'' (regular_file log))"
  shows "\<exists>r. validate_all loads path (brief_pack log) now = Inr r \<and>
              overall_status r = ''INVALID''"
proof -
  have n: "''runtime_observations.jsonl'' \<in> set (map fst required_files)"
    by (simp add: required_files_def)
  have ex: "path_exists (brief_pack log ''runtime_observations.jsonl'') = Inr True"
    by (simp add: brief_pack_log regular_file_def)
  have run: "validate_all loads path (brief_pack log) now =
      Inr (report_of loads path (brief_pack log) now)"
    using brief_pack_returns by (rule validate_all_eq)
  from assms have "\<not> valid (validate_content loads ''runtime_observations.jsonl''
      (brief_pack log ''runtime_observations.jsonl''))"
    by (simp add: brief_pack_log)
  from invalid_content_status [OF n ex this run] run show ?thesis by blast
qed

lemma split_on_append:
  "split_on sep (xs @ sep # ys) = split_on sep xs @ split_on sep ys"
proof (induction xs)
  case Nil
  then show ?case by simp
next
  case (Cons x xs)
  obtain l ls where r: "split_on sep xs = l # ls"
    using split_on_nonempty [of sep xs] by (cases "split_on sep xs") auto
  from Cons show ?case by (simp add: r)
qed

lemma split_on_absent: "sep \<notin> set s \<Longrightarrow> split_on sep s = [s]"
  by (induction s) auto

lemma dropWhile_keeps:
  "s \<noteq> [] \<Longrightarrow> \<not> P (hd s) \<Longrightarrow> dropWhile P s = s"
  by (cases s) auto

lemma strip_appended:
  assumes "bad \<noteq> []" and "\<not> isspace (hd bad)" and "\<not> isspace (last bad)"
  shows "strip (content @ newline # bad) = bad \<or>
         (\<exists>pre. strip (content @ newline # bad) = pre @ newline # bad)"
proof -
  have nl: "isspace newline" by (simp add: isspace_def newline_def)
  have front: "dropWhile isspace (newline # bad) = bad"
    using assms(1,2) nl by (simp add: dropWhile_keeps)
  have tail_kept: "rev (dropWhile isspace (rev (pre @ bad))) = pre @ bad" for pre
  proof -
    have "rev bad \<noteq> []" "\<not> isspace (hd (rev bad))"
      using assms(1,3) by (simp_all add: hd_rev)
    then have "dropWhile isspace (rev bad @ rev pre) = rev bad @ rev pre"
      by (cases "rev bad") auto
    then show ?thesis by simp
  qed
  show ?thesis
  proof (cases "\<forall>c \<in> set content. isspace c")
    case True
    then have "dropWhile isspace (content @ newline # bad) = bad"
      using front by (simp add: dropWhile_append)
    with tail_kept [of "[]"] show ?thesis by (simp add: strip_def)
  next
    case False
    then have "dropWhile isspace (content @ newline # bad) =
        (dropWhile isspace content @ [newline]) @ bad"
      by (auto simp: dropWhile_append)
    with tail_kept [of "dropWhile isspace content @ [newline]"]
    have "strip (content @ newline # bad) = dropWhile isspace content @ newline # bad"
      by (simp add: strip_def)
    then show ?thesis by blast
  qed
qed

lemma appended_line_kept:
  assumes "bad \<noteq> []" and "\<not> isspace (hd bad)" and "\<not> isspace (last bad)"
    and "newline \<notin> set bad"
  shows "bad \<in> set (log_lines (content @ newline # bad))"
  using strip_appended [OF assms(1,2,3), of content] assms(4)
  by (auto simp: log_lines_def split_on_append split_on_absent)

text \<open>
  Appending a malformed line that has no whitespace around it gives an invalid log,
  whatever the log was.
\<close>

lemma appended_malformed_invalid:
  assumes "bad \<noteq> []" and "\<not> isspace (hd bad)" and "\<not> isspace (last bad)"
    and "newline \<notin> set bad" and "malformed loads bad"
    and "path_read_text st = Inr (content @ newline # bad)"
  shows "\<not> valid (validate_content loads ''runtime_observations.jsonl'' st)"
proof -
  from appended_line_kept [OF assms(1,2,3,4), of content] assms(5)
  have "list_ex (\<lambda>l. malformed loads l \<or> escapes loads l) (log_lines (content @ newline # bad))"
    by (auto simp: list_ex_iff)
  with assms(6) show ?thesis by (rule bad_line_invalid)
qed

text \<open>
  Claim C4 (an invalid event log stays invalid when a malformed line is added, and
  becomes valid, with an overall status that is no worse, when every malformed line
  is replaced by a line that parses). The validator returns otherwise for the second
  part. The log \<^verbatim>\<open>{"a": 1}\<close>, blank line, \<^verbatim>\<open>{"bad":}\<close> is invalid with 2 invalid
  lines. With its third line replaced by \<^verbatim>\<open>{"b": 2}\<close> no line is malformed, and the
  log is still invalid, with 1 invalid line and no warning; the overall status of the
  pack is \<^verbatim>\<open>INVALID\<close> before and after.
\<close>

theorem fixed_log_still_invalid:
  \<open>validate_content sample_loads ''runtime_observations.jsonl''
      (regular_file ''{"a": 1}\<newline>\<newline>{"bad":}'') =
     \<lparr>valid = False,
      warnings = Some [''Invalid JSON on line 3: Expecting value: line 1 column 8 (char 7)''],
      metrics = Some [(''total_lines'', 3), (''valid_json_lines'', 1), (''invalid_lines'', 2)],
      error = Some ''2 invalid JSON lines''\<rparr> \<and>
   filter (malformed sample_loads) (log_lines ''{"a": 1}\<newline>\<newline>{"b": 2}'') = [] \<and>
   validate_content sample_loads ''runtime_observations.jsonl''
      (regular_file ''{"a": 1}\<newline>\<newline>{"b": 2}'') =
     \<lparr>valid = False, warnings = Some [],
      metrics = Some [(''total_lines'', 3), (''valid_json_lines'', 2), (''invalid_lines'', 1)],
      error = Some ''1 invalid JSON lines''\<rparr> \<and>
   (\<exists>r. validate_all sample_loads ''packs/alice''
      (brief_pack ''{"a": 1}\<newline>\<newline>{"bad":}'') ''2025-01-01T00:00:00'' = Inr r \<and>
      overall_status r = ''INVALID'') \<and>
   (\<exists>r. validate_all sample_loads ''packs/alice''
      (brief_pack ''{"a": 1}\<newline>\<newline>{"b": 2}'') ''2025-01-01T00:00:00'' = Inr r \<and>
      overall_status r = ''INVALID'')\<close>
proof -
  have m: \<open>filter (malformed sample_loads) (log_lines ''{"a": 1}\<newline>\<newline>{"b": 2}'') = []\<close>
    unfolding gap_fixed_lines by (simp add: malformed_def sample_loads_def blank_def strip_def)
  have s1: \<open>\<exists>r. validate_all sample_loads ''packs/alice''
      (brief_pack ''{"a": 1}\<newline>\<newline>{"bad":}'') ''2025-01-01T00:00:00'' = Inr r \<and>
      overall_status r = ''INVALID''\<close>
    by (rule invalid_log_status) (simp add: gap_bad_value)
  have s2: \<open>\<exists>r. validate_all sample_loads ''packs/alice''
      (brief_pack ''{"a": 1}\<newline>\<newline>{"b": 2}'') ''2025-01-01T00:00:00'' = Inr r \<and>
      overall_status r = ''INVALID''\<close>
    by (rule invalid_log_status) (simp add: gap_fixed_value)
  from gap_bad_value gap_fixed_value m s1 s2 show ?thesis by blast
qed

end
